theory Spec2Isabelle
  imports Complex_Main "HOL-Library.Word" "HOL-Library.Sublist" "HOL-Library.Multiset"
begin

section \<open>JavaScript strings\<close>

text \<open>
  A JavaScript string is a sequence of UTF-16 code units. String literals of the source are
  written \<open>js ''...''\<close>.
\<close>

type_synonym jsstring = "16 word list"

definition js :: "string \<Rightarrow> jsstring" where
  "js s = map of_char s"

text \<open>
  The code units removed by \<^verbatim>\<open>String.prototype.trim\<close>: ECMAScript WhiteSpace and
  LineTerminator (TAB, LF, VT, FF, CR, SP, NBSP, U+1680, U+2000..U+200A, LS, PS, U+202F,
  U+205F, U+3000, ZWNBSP).
\<close>

definition isWhiteSpace :: "16 word \<Rightarrow> bool" where
  "isWhiteSpace c \<longleftrightarrow>
     c = 0x09 \<or> c = 0x0A \<or> c = 0x0B \<or> c = 0x0C \<or> c = 0x0D \<or> c = 0x20 \<or> c = 0xA0 \<or>
     c = 0x1680 \<or> (0x2000 \<le> c \<and> c \<le> 0x200A) \<or> c = 0x2028 \<or> c = 0x2029 \<or>
     c = 0x202F \<or> c = 0x205F \<or> c = 0x3000 \<or> c = 0xFEFF"

definition trim :: "jsstring \<Rightarrow> jsstring" where
  "trim s = rev (dropWhile isWhiteSpace (rev (dropWhile isWhiteSpace s)))"

text \<open>
  \<^verbatim>\<open>String.prototype.split(sep)\<close> with a string separator and no limit: the text is
  scanned from the left, each occurrence of \<open>sep\<close> closes the current segment and the scan
  resumes behind it; the empty separator splits into single code units.
\<close>

fun splitFrom :: "jsstring \<Rightarrow> jsstring \<Rightarrow> jsstring \<Rightarrow> jsstring list" where
  "splitFrom sep cur [] = [cur]"
| "splitFrom sep cur (c # cs) =
     (if sep \<noteq> [] \<and> prefix sep (c # cs)
      then cur # splitFrom sep [] (drop (length sep - 1) cs)
      else splitFrom sep (cur @ [c]) cs)"

definition split_js :: "jsstring \<Rightarrow> jsstring \<Rightarrow> jsstring list" where
  "split_js s sep = (if sep = [] then map (\<lambda>c. [c]) s else splitFrom sep [] s)"

text \<open>\<^verbatim>\<open>Array.prototype.join(sep)\<close> on an array of strings.\<close>

fun join_js :: "jsstring list \<Rightarrow> jsstring \<Rightarrow> jsstring" where
  "join_js [] sep = []"
| "join_js [x] sep = x"
| "join_js (x # y # ys) sep = x @ sep @ join_js (y # ys) sep"

text \<open>\<^verbatim>\<open>String.prototype.includes(sub)\<close>.\<close>

fun includes_js :: "jsstring \<Rightarrow> jsstring \<Rightarrow> bool" where
  "includes_js [] sub = (sub = [])"
| "includes_js (c # cs) sub = (prefix sub (c # cs) \<or> includes_js cs sub)"

section \<open>JSON values\<close>

text \<open>
  The result of \<^verbatim>\<open>JSON.parse\<close> / \<^verbatim>\<open>response.json()\<close>. An object holds its members in
  the order of the text; where a key is repeated the last member is the property's value.
  A value of type \<open>json option\<close> is a JavaScript value that may also be \<^verbatim>\<open>undefined\<close>
  (\<open>None\<close>).
\<close>

datatype json =
    JNull
  | JBool bool
  | JNum rat
  | JStr jsstring
  | JArr "json list"
  | JObj "(jsstring \<times> json) list"

datatype js_error = TypeError | Error jsstring

text \<open>The property keys that \<^verbatim>\<open>askQuestion\<close> reads from the response.\<close>

datatype reply_key = Candidates | Content | Parts | Text | Index0

fun prop_key :: "reply_key \<Rightarrow> jsstring" where
  "prop_key Candidates = js ''candidates''"
| "prop_key Content = js ''content''"
| "prop_key Parts = js ''parts''"
| "prop_key Text = js ''text''"
| "prop_key Index0 = js ''0''"

text \<open>
  Reading one of these properties from a value that is neither \<^verbatim>\<open>null\<close> nor
  \<^verbatim>\<open>undefined\<close>. An object yields its own member; an array and a string answer to the
  index \<^verbatim>\<open>0\<close> only; numbers and booleans have none of them (the prototypes of Object,
  Array, String, Number and Boolean define none of the five keys).
\<close>

fun getProp :: "json \<Rightarrow> reply_key \<Rightarrow> json option" where
  "getProp (JObj kvs) p = map_of (rev kvs) (prop_key p)"
| "getProp (JArr (x # xs)) Index0 = Some x"
| "getProp (JStr (c # cs)) Index0 = Some (JStr [c])"
| "getProp v p = None"

definition nullish :: "json option \<Rightarrow> bool" where
  "nullish v \<longleftrightarrow> v = None \<or> v = Some JNull"

text \<open>\<^verbatim>\<open>base.p\<close>: a TypeError on \<^verbatim>\<open>null\<close> and \<^verbatim>\<open>undefined\<close>.\<close>

definition member :: "json option \<Rightarrow> reply_key \<Rightarrow> js_error + json option" where
  "member base p = (case base of None \<Rightarrow> Inl TypeError | Some JNull \<Rightarrow> Inl TypeError
                    | Some v \<Rightarrow> Inr (getProp v p))"

text \<open>\<^verbatim>\<open>base?.p\<close>: \<^verbatim>\<open>undefined\<close> on a nullish base, \<^verbatim>\<open>base.p\<close> otherwise.\<close>

definition optMember :: "json option \<Rightarrow> reply_key \<Rightarrow> js_error + json option" where
  "optMember base p = (if nullish base then Inr None else member base p)"

definition thenOpt :: "js_error + json option \<Rightarrow> reply_key \<Rightarrow> js_error + json option" where
  "thenOpt r p = (case r of Inl e \<Rightarrow> Inl e | Inr v \<Rightarrow> optMember v p)"

text \<open>ToBoolean.\<close>

fun truthy :: "json option \<Rightarrow> bool" where
  "truthy None = False"
| "truthy (Some JNull) = False"
| "truthy (Some (JBool b)) = b"
| "truthy (Some (JNum n)) = (n \<noteq> 0)"
| "truthy (Some (JStr s)) = (s \<noteq> [])"
| "truthy (Some (JArr xs)) = True"
| "truthy (Some (JObj kvs)) = True"

text \<open>\<^verbatim>\<open>data?.candidates?.[0]?.content?.parts?.[0]?.text\<close> (App.jsx line 123).\<close>

definition replyPath :: "json \<Rightarrow> js_error + json option" where
  "replyPath data =
     thenOpt (thenOpt (thenOpt (thenOpt (thenOpt (thenOpt (Inr (Some data))
       Candidates) Index0) Content) Parts) Index0) Text"

text \<open>\<^verbatim>\<open>const rawReply = ... || "No response"\<close>.\<close>

definition rawReply :: "json \<Rightarrow> js_error + json" where
  "rawReply data =
     (case replyPath data of
        Inl e \<Rightarrow> Inl e
      | Inr None \<Rightarrow> Inr (JStr (js ''No response''))
      | Inr (Some v) \<Rightarrow> Inr (if truthy (Some v) then v else JStr (js ''No response'')))"

text \<open>
  \<^verbatim>\<open>rawReply.split("* ").map(line => line.trim()).filter(line => line.length > 0)\<close>
  (App.jsx lines 126-129).
\<close>

definition botLines :: "jsstring \<Rightarrow> jsstring list" where
  "botLines reply =
     filter (\<lambda>line. length line > 0) (map (\<lambda>line. trim line) (split_js reply (js ''* '')))"

text \<open>\<^verbatim>\<open>question.trim().split(' ').slice(0, 6).join(' ')\<close> (App.jsx line 101).\<close>

definition shortName :: "jsstring \<Rightarrow> jsstring" where
  "shortName question = join_js (take 6 (split_js (trim question) (js '' ''))) (js '' '')"

section \<open>Sessions and messages\<close>

datatype sender_kind = User | Bot

text \<open>A message text is a string (user messages) or an array of lines (bot messages).\<close>

datatype message_text = Single jsstring | Lines "jsstring list"

record message =
  sender :: sender_kind
  text_msg :: message_text
  timestamp :: jsstring

text \<open>
  A chat session \<^verbatim>\<open>{ id, name, pinned, messages }\<close>; the fields \<^verbatim>\<open>id\<close> and
  \<^verbatim>\<open>messages\<close> carry a suffix here.
\<close>

record chat =
  id_chat :: jsstring
  name :: jsstring
  pinned :: bool
  messages_chat :: "message list"

section \<open>Sorting the session list\<close>

text \<open>
  \<^verbatim>\<open>String.prototype.localeCompare\<close> belongs to the platform and is a parameter \<open>lc\<close> of
  every operation that sorts. ECMAScript requires it to be a consistent comparator over all
  strings, which is the following.
\<close>

definition consistent_comparator :: "(jsstring \<Rightarrow> jsstring \<Rightarrow> int) \<Rightarrow> bool" where
  "consistent_comparator lc \<longleftrightarrow>
     (\<forall>a. lc a a = 0) \<and>
     (\<forall>a b. (lc a b < 0) = (lc b a > 0)) \<and>
     (\<forall>a b c. lc a b \<le> 0 \<and> lc b c \<le> 0 \<longrightarrow> lc a c \<le> 0)"

text \<open>
  The comparator of \<^verbatim>\<open>togglePinChat\<close> and \<^verbatim>\<open>importChats\<close> (App.jsx lines 147-150 and
  213-216); \<^verbatim>\<open>b.pinned - a.pinned\<close> subtracts the booleans as 0 and 1.
\<close>

definition compareChats :: "(jsstring \<Rightarrow> jsstring \<Rightarrow> int) \<Rightarrow> chat \<Rightarrow> chat \<Rightarrow> int" where
  "compareChats lc a b =
     (if pinned a = pinned b then lc (id_chat b) (id_chat a)
      else of_bool (pinned b) - of_bool (pinned a))"

text \<open>
  \<^verbatim>\<open>Array.prototype.sort(comparefn)\<close> is stable, and with a consistent comparator its
  result is the one stable ordering of the array; it is written here as a stable insertion
  sort.
\<close>

fun insert_js :: "('a \<Rightarrow> 'a \<Rightarrow> int) \<Rightarrow> 'a \<Rightarrow> 'a list \<Rightarrow> 'a list" where
  "insert_js cmp x [] = [x]"
| "insert_js cmp x (y # ys) = (if cmp x y \<le> 0 then x # y # ys else y # insert_js cmp x ys)"

definition sort_js :: "('a \<Rightarrow> 'a \<Rightarrow> int) \<Rightarrow> 'a list \<Rightarrow> 'a list" where
  "sort_js cmp xs = foldr (insert_js cmp) xs []"

section \<open>The component state\<close>

text \<open>
  The state of \<^verbatim>\<open>App\<close>: the \<^verbatim>\<open>useState\<close> cells the handlers read and write, the
  value stored under the key \<^verbatim>\<open>allChats\<close> of \<^verbatim>\<open>localStorage\<close> (\<open>None\<close> when the key
  is absent; the stored text is the \<^verbatim>\<open>JSON.stringify\<close> of the list held here), and the
  messages shown by \<^verbatim>\<open>alert\<close>. The search term and the two refs, which no handler
  below reads, are left out.
\<close>

record app =
  question :: jsstring
  messages :: "message list"
  chatHistory :: "chat list"
  currentSessionId :: "jsstring option"
  isTyping :: bool
  editingChatId :: "jsstring option"
  renameText :: jsstring
  allChats :: "chat list option"
  alerts :: "jsstring list"

definition initial :: "chat list option \<Rightarrow> app" where
  "initial stored =
     \<lparr>question = [], messages = [], chatHistory = [], currentSessionId = None,
      isTyping = False, editingChatId = None, renameText = [], allChats = stored,
      alerts = []\<rparr>"

text \<open>\<^verbatim>\<open>JSON.parse(localStorage.getItem('allChats')) || []\<close> (App.jsx line 19).\<close>

definition storedChats :: "app \<Rightarrow> chat list" where
  "storedChats s = (case allChats s of None \<Rightarrow> [] | Some chats \<Rightarrow> chats)"

text \<open>The effect that loads all sessions on start (App.jsx lines 18-28).\<close>

definition loadEffect :: "app \<Rightarrow> app" where
  "loadEffect s =
     (let stored = storedChats s in
      case stored of
        [] \<Rightarrow> s\<lparr>chatHistory := stored\<rparr>
      | c # cs \<Rightarrow> s\<lparr>chatHistory := stored, currentSessionId := Some (id_chat c),
                     messages := messages_chat c\<rparr>)"

text \<open>
  The effect that saves the current session when \<^verbatim>\<open>messages\<close> changes (App.jsx lines
  31-38); \<^verbatim>\<open>!currentSessionId\<close> holds for \<^verbatim>\<open>null\<close> and for the empty string.
\<close>

definition saveEffect :: "app \<Rightarrow> app" where
  "saveEffect s =
     (case currentSessionId s of
        None \<Rightarrow> s
      | Some cur \<Rightarrow>
          if cur = [] then s
          else let updatedChats =
                     map (\<lambda>chat. if id_chat chat = cur then chat\<lparr>messages_chat := messages s\<rparr>
                                else chat) (chatHistory s)
               in s\<lparr>allChats := Some updatedChats, chatHistory := updatedChats\<rparr>)"

section \<open>The handlers\<close>

text \<open>
  \<^verbatim>\<open>createNewSession\<close> (App.jsx lines 46-55); \<open>newId\<close> is
  \<^verbatim>\<open>Date.now().toString()\<close>.
\<close>

definition createNewSession :: "jsstring \<Rightarrow> app \<Rightarrow> app" where
  "createNewSession newId s =
     (let newSession = \<lparr>id_chat = newId, name = js ''New Chat'', pinned = False,
                         messages_chat = []\<rparr>;
          updatedHistory = newSession # chatHistory s
      in s\<lparr>allChats := Some updatedHistory, chatHistory := updatedHistory, messages := [],
            currentSessionId := Some newId\<rparr>)"

text \<open>\<^verbatim>\<open>loadSession\<close> (App.jsx lines 58-67).\<close>

definition loadSession :: "jsstring \<Rightarrow> app \<Rightarrow> app" where
  "loadSession i s =
     (case find (\<lambda>chat. id_chat chat = i) (chatHistory s) of
        None \<Rightarrow> s
      | Some session \<Rightarrow> s\<lparr>currentSessionId := Some i, messages := messages_chat session\<rparr>)"

text \<open>\<^verbatim>\<open>deleteSession\<close> (App.jsx lines 70-83).\<close>

definition deleteSession :: "jsstring \<Rightarrow> app \<Rightarrow> app" where
  "deleteSession i s =
     (let updatedChats = filter (\<lambda>chat. id_chat chat \<noteq> i) (chatHistory s);
          s1 = s\<lparr>allChats := Some updatedChats, chatHistory := updatedChats\<rparr>
      in if currentSessionId s = Some i
         then (case updatedChats of
                 c # cs \<Rightarrow> s1\<lparr>currentSessionId := Some (id_chat c), messages := messages_chat c\<rparr>
               | [] \<Rightarrow> s1\<lparr>currentSessionId := None, messages := []\<rparr>)
         else s1)"

text \<open>\<^verbatim>\<open>refreshChat\<close> (App.jsx lines 86-89).\<close>

definition refreshChat :: "app \<Rightarrow> app" where
  "refreshChat s = s\<lparr>messages := []\<rparr>"

text \<open>
  \<^verbatim>\<open>askQuestion\<close> up to the \<^verbatim>\<open>await\<close> (App.jsx lines 92-109); \<open>now\<close> is
  \<^verbatim>\<open>new Date().toISOString()\<close>. \<^verbatim>\<open>chat.id === currentSessionId\<close> is false for every
  chat while \<^verbatim>\<open>currentSessionId\<close> is \<^verbatim>\<open>null\<close>.
\<close>

definition askQuestion :: "jsstring \<Rightarrow> app \<Rightarrow> app" where
  "askQuestion now s =
     (if trim (question s) = [] then s
      else
        let userMessage = \<lparr>sender = User, text_msg = Single (question s), timestamp = now\<rparr>;
            s1 = s\<lparr>messages := messages s @ [userMessage]\<rparr>;
            s2 = (case find (\<lambda>chat. Some (id_chat chat) = currentSessionId s) (chatHistory s) of
                    None \<Rightarrow> s1
                  | Some currentChat \<Rightarrow>
                      if name currentChat = [] \<or> name currentChat = js ''New Chat''
                      then let updatedChats =
                                 map (\<lambda>chat. if Some (id_chat chat) = currentSessionId s
                                            then chat\<lparr>name := shortName (question s)\<rparr>
                                            else chat) (chatHistory s)
                           in s1\<lparr>chatHistory := updatedChats, allChats := Some updatedChats\<rparr>
                      else s1)
        in s2\<lparr>isTyping := True\<rparr>)"

text \<open>
  What the \<^verbatim>\<open>await\<close> of \<^verbatim>\<open>fetch\<close> and \<^verbatim>\<open>response.json()\<close> delivers: a rejection, or
  the parsed body.
\<close>

datatype response = Rejected | Body json

text \<open>
  The lines of the bot message (App.jsx lines 122-134). A truthy \<^verbatim>\<open>rawReply\<close> that is
  not a string has no callable \<^verbatim>\<open>split\<close>; the TypeError lands in the \<^verbatim>\<open>catch\<close> like a
  failed fetch.
\<close>

definition replyLines :: "response \<Rightarrow> jsstring list" where
  "replyLines r =
     (case r of
        Rejected \<Rightarrow> [js ''Error: Could not fetch response.'']
      | Body data \<Rightarrow>
          (case rawReply data of
             Inr (JStr reply) \<Rightarrow> botLines reply
           | _ \<Rightarrow> [js ''Error: Could not fetch response.'']))"

text \<open>\<^verbatim>\<open>askQuestion\<close> behind the \<^verbatim>\<open>await\<close> (App.jsx lines 122-138).\<close>

definition askQuestionReply :: "jsstring \<Rightarrow> response \<Rightarrow> app \<Rightarrow> app" where
  "askQuestionReply now r s =
     s\<lparr>messages := messages s @ [\<lparr>sender = Bot, text_msg = Lines (replyLines r), timestamp = now\<rparr>],
       isTyping := False, question := []\<rparr>"

text \<open>\<^verbatim>\<open>togglePinChat\<close> (App.jsx lines 142-153).\<close>

definition togglePinChat :: "(jsstring \<Rightarrow> jsstring \<Rightarrow> int) \<Rightarrow> jsstring \<Rightarrow> app \<Rightarrow> app" where
  "togglePinChat lc i s =
     (let updatedChats =
            sort_js (compareChats lc)
              (map (\<lambda>chat. if id_chat chat = i then chat\<lparr>pinned := \<not> pinned chat\<rparr> else chat)
                 (chatHistory s))
      in s\<lparr>allChats := Some updatedChats, chatHistory := updatedChats\<rparr>)"

text \<open>\<^verbatim>\<open>startRenaming\<close> and \<^verbatim>\<open>saveRename\<close> (App.jsx lines 156-170).\<close>

definition startRenaming :: "jsstring \<Rightarrow> jsstring \<Rightarrow> app \<Rightarrow> app" where
  "startRenaming i currentName s = s\<lparr>editingChatId := Some i, renameText := currentName\<rparr>"

definition saveRename :: "jsstring \<Rightarrow> app \<Rightarrow> app" where
  "saveRename i s =
     (if trim (renameText s) = [] then s
      else
        let updatedChats =
              map (\<lambda>chat. if id_chat chat = i then chat\<lparr>name := trim (renameText s)\<rparr> else chat)
                (chatHistory s)
        in s\<lparr>allChats := Some updatedChats, chatHistory := updatedChats,
              editingChatId := None\<rparr>)"

text \<open>
  The value that \<^verbatim>\<open>JSON.parse\<close> returns for an import file. The elements of an array are
  taken to be session objects, as \<^verbatim>\<open>exportChats\<close> writes them: the handler reads
  \<^verbatim>\<open>id\<close> and \<^verbatim>\<open>pinned\<close> from each element without a check.
\<close>

datatype imported =
    INull
  | IBool bool
  | INum rat
  | IStr jsstring
  | IObj "(jsstring \<times> json) list"
  | IArr "chat list"

text \<open>The outcome of \<^verbatim>\<open>JSON.parse(event.target.result)\<close>: a SyntaxError with its message, or a value.\<close>

datatype file_content = SyntaxError jsstring | Parsed imported

text \<open>\<^verbatim>\<open>Array.isArray(imported)\<close>, and the elements that \<^verbatim>\<open>forEach\<close> visits.\<close>

fun isArray :: "imported \<Rightarrow> bool" where
  "isArray (IArr chats) = True"
| "isArray v = False"

fun elements :: "imported \<Rightarrow> chat list" where
  "elements (IArr chats) = chats"
| "elements v = []"

text \<open>The merge loop (App.jsx lines 205-210).\<close>

definition mergeChats :: "chat list \<Rightarrow> chat list \<Rightarrow> chat list" where
  "mergeChats chats incoming =
     foldl (\<lambda>merged impChat.
              if find (\<lambda>c. id_chat c = id_chat impChat) merged = None
              then merged @ [impChat] else merged) chats incoming"

text \<open>
  The \<^verbatim>\<open>onload\<close> callback of \<^verbatim>\<open>importChats\<close> (App.jsx lines 199-224). It merges into
  the \<^verbatim>\<open>chatHistory\<close> that the handler captured when the file was chosen, \<open>captured\<close>.
  Both throws end in the \<^verbatim>\<open>catch\<close>, which alerts \<^verbatim>\<open>err.message\<close>.
\<close>

definition readerOnload ::
  "(jsstring \<Rightarrow> jsstring \<Rightarrow> int) \<Rightarrow> chat list \<Rightarrow> file_content \<Rightarrow> app \<Rightarrow> app" where
  "readerOnload lc captured content s =
     (case content of
        SyntaxError msg \<Rightarrow> s\<lparr>alerts := alerts s @ [js ''Failed to import chats: '' @ msg]\<rparr>
      | Parsed imported \<Rightarrow>
          if \<not> isArray imported
          then s\<lparr>alerts := alerts s @ [js ''Failed to import chats: '' @ js ''Invalid format'']\<rparr>
          else
            let merged = sort_js (compareChats lc) (mergeChats captured (elements imported))
            in s\<lparr>allChats := Some merged, chatHistory := merged\<rparr>)"

text \<open>
  \<^verbatim>\<open>importChats\<close> for a chosen file (without a file the handler returns at once) whose
  \<^verbatim>\<open>onload\<close> runs before any other event: the captured list is the current one.
\<close>

definition importChats :: "(jsstring \<Rightarrow> jsstring \<Rightarrow> int) \<Rightarrow> file_content \<Rightarrow> app \<Rightarrow> app" where
  "importChats lc content s = readerOnload lc (chatHistory s) content s"

section \<open>Events\<close>

text \<open>
  One event is one handler call followed by the render it causes. The save effect depends on
  \<^verbatim>\<open>[messages]\<close>, so it runs after exactly the handlers that call \<^verbatim>\<open>setMessages\<close>.
\<close>

datatype event =
    CreateNewSession jsstring
  | LoadSession jsstring
  | DeleteSession jsstring
  | RefreshChat
  | SetQuestion jsstring
  | AskQuestion jsstring
  | Reply jsstring response
  | TogglePinChat jsstring
  | StartRenaming jsstring jsstring
  | SetRenameText jsstring
  | SaveRename jsstring
  | CancelRename
  | ImportChats file_content
  | ReaderOnload "chat list" file_content

fun fire :: "(jsstring \<Rightarrow> jsstring \<Rightarrow> int) \<Rightarrow> event \<Rightarrow> app \<Rightarrow> app" where
  "fire lc (CreateNewSession newId) s = saveEffect (createNewSession newId s)"
| "fire lc (LoadSession i) s =
     (if find (\<lambda>chat. id_chat chat = i) (chatHistory s) = None then s
      else saveEffect (loadSession i s))"
| "fire lc (DeleteSession i) s =
     (if currentSessionId s = Some i then saveEffect (deleteSession i s) else deleteSession i s)"
| "fire lc RefreshChat s = saveEffect (refreshChat s)"
| "fire lc (SetQuestion q) s = s\<lparr>question := q\<rparr>"
| "fire lc (AskQuestion now) s =
     (if trim (question s) = [] then s else saveEffect (askQuestion now s))"
| "fire lc (Reply now r) s = saveEffect (askQuestionReply now r s)"
| "fire lc (TogglePinChat i) s = togglePinChat lc i s"
| "fire lc (StartRenaming i currentName) s = startRenaming i currentName s"
| "fire lc (SetRenameText t) s = s\<lparr>renameText := t\<rparr>"
| "fire lc (SaveRename i) s = saveRename i s"
| "fire lc CancelRename s = s\<lparr>editingChatId := None\<rparr>"
| "fire lc (ImportChats content) s = importChats lc content s"
| "fire lc (ReaderOnload captured content) s = readerOnload lc captured content s"

definition run :: "(jsstring \<Rightarrow> jsstring \<Rightarrow> int) \<Rightarrow> event list \<Rightarrow> app \<Rightarrow> app" where
  "run lc evs s = foldl (\<lambda>s ev. fire lc ev s) s evs"

text \<open>The first render: the load effect, then the save effect for the messages it set.\<close>

definition mount :: "chat list option \<Rightarrow> app" where
  "mount stored = saveEffect (loadEffect (initial stored))"

section \<open>Notions of the specification\<close>

text \<open>
  The order the specification asks of the session list: a pinned session never follows an
  unpinned one, and of two sessions with the same pinned flag the earlier one has the greater
  or an equal id in the order of \<open>lc\<close>.
\<close>

definition pinnedThenDescendingId :: "(jsstring \<Rightarrow> jsstring \<Rightarrow> int) \<Rightarrow> chat \<Rightarrow> chat \<Rightarrow> bool" where
  "pinnedThenDescendingId lc a b \<longleftrightarrow>
     (pinned b \<longrightarrow> pinned a) \<and> (pinned a = pinned b \<longrightarrow> lc (id_chat a) (id_chat b) \<ge> 0)"

text \<open>
  The segments of a text between single spaces: the maximal runs of code units other than
  the space U+0020, an empty run between two adjacent spaces included.
\<close>

fun segmentsFrom :: "jsstring \<Rightarrow> jsstring \<Rightarrow> jsstring list" where
  "segmentsFrom cur [] = [cur]"
| "segmentsFrom cur (c # cs) =
     (if c = 0x20 then cur # segmentsFrom [] cs else segmentsFrom (cur @ [c]) cs)"

text \<open>
  The words of a text as the specification counts them: the maximal non-empty runs of code
  units that are not white space.
\<close>

fun wordsFrom :: "jsstring \<Rightarrow> jsstring \<Rightarrow> jsstring list" where
  "wordsFrom cur [] = (if cur = [] then [] else [cur])"
| "wordsFrom cur (c # cs) =
     (if isWhiteSpace c then (if cur = [] then [] else [cur]) @ wordsFrom [] cs
      else wordsFrom (cur @ [c]) cs)"

definition firstSixWords :: "jsstring \<Rightarrow> jsstring list" where
  "firstSixWords t = take 6 (wordsFrom [] (trim t))"

text \<open>
  The value at \<^verbatim>\<open>candidates[0].content.parts[0].text\<close> as the specification reads the
  response shape: each component is looked up in the value before it, and a component looked
  up in \<^verbatim>\<open>null\<close> or in an absent value is absent.
\<close>

definition component :: "json option \<Rightarrow> reply_key \<Rightarrow> json option" where
  "component base p = (case base of None \<Rightarrow> None | Some JNull \<Rightarrow> None | Some v \<Rightarrow> getProp v p)"

definition replyKeys :: "reply_key list" where
  "replyKeys = [Candidates, Index0, Content, Parts, Index0, Text]"

definition valueAt :: "json \<Rightarrow> reply_key list \<Rightarrow> json option" where
  "valueAt data ks = foldl component (Some data) ks"

section \<open>Writes to the store\<close>

text \<open>
  What one event may do to the stored list: after it the store holds the session list of the
  component, or the event has touched neither the session list nor the store.
\<close>

definition written :: "app \<Rightarrow> app \<Rightarrow> bool" where
  "written s s' \<longleftrightarrow>
     allChats s' = Some (chatHistory s') \<or>
     (chatHistory s' = chatHistory s \<and> allChats s' = allChats s)"

section \<open>Sample inputs\<close>

text \<open>
  A comparator that orders strings by their code units; on the decimal ids that
  \<^verbatim>\<open>Date.now().toString()\<close> produces it has the sign of \<^verbatim>\<open>localeCompare\<close>.
\<close>

fun codeUnitCompare :: "jsstring \<Rightarrow> jsstring \<Rightarrow> int" where
  "codeUnitCompare [] [] = 0"
| "codeUnitCompare [] (y # ys) = - 1"
| "codeUnitCompare (x # xs) [] = 1"
| "codeUnitCompare (x # xs) (y # ys) =
     (if x < y then - 1 else if y < x then 1 else codeUnitCompare xs ys)"

definition chatA :: chat where
  "chatA = \<lparr>id_chat = js ''1700000000001'', name = js ''New Chat'', pinned = False,
            messages_chat = []\<rparr>"

definition chatB :: chat where
  "chatB = \<lparr>id_chat = js ''1700000000002'', name = js ''Plans'', pinned = False,
            messages_chat = []\<rparr>"

definition chatC :: chat where
  "chatC = \<lparr>id_chat = js ''1700000000003'', name = js ''Notes'', pinned = True,
            messages_chat = []\<rparr>"

definition chatD :: chat where
  "chatD = \<lparr>id_chat = js ''1700000000003'', name = js ''Copy of notes'', pinned = False,
            messages_chat = []\<rparr>"

definition sampleApp :: app where
  "sampleApp = mount (Some [chatA, chatB])"

definition helloApp :: app where
  "helloApp = fire codeUnitCompare (SetQuestion (js ''Hello world foo bar baz qux extra'')) sampleApp"

definition spacedApp :: app where
  "spacedApp = fire codeUnitCompare (SetQuestion (js ''a  b c d e f g'')) sampleApp"

text \<open>
  Two states with the question \<^verbatim>\<open>"Hi"\<close> typed: one with the session named
  \<^verbatim>\<open>"Plans"\<close> loaded, one after a first start with an empty store, where no session is
  current.
\<close>

definition plansApp :: app where
  "plansApp = fire codeUnitCompare (SetQuestion (js ''Hi''))
                (fire codeUnitCompare (LoadSession (id_chat chatB)) sampleApp)"

definition emptyApp :: app where
  "emptyApp = fire codeUnitCompare (SetQuestion (js ''Hi'')) (mount None)"

text \<open>Three response bodies: no candidate, an empty text, and a text.\<close>

definition noCandidates :: json where
  "noCandidates = JObj [(js ''candidates'', JArr [])]"

definition emptyText :: json where
  "emptyText = JObj [(js ''candidates'', JArr [JObj [(js ''content'',
     JObj [(js ''parts'', JArr [JObj [(js ''text'', JStr [])]])])]])]"

definition helloText :: json where
  "helloText = JObj [(js ''candidates'', JArr [JObj [(js ''content'',
     JObj [(js ''parts'', JArr [JObj [(js ''text'', JStr (js ''Hi''))]])])]])]"

text \<open>A session of use, from the first start with an empty store.\<close>

definition sampleEvents :: "event list" where
  "sampleEvents =
     [CreateNewSession (js ''1700000000004''),
      SetQuestion (js ''Hello world''),
      AskQuestion (js ''2026-01-01T00:00:00.000Z''),
      Reply (js ''2026-01-01T00:00:01.000Z'') Rejected,
      TogglePinChat (js ''1700000000004''),
      StartRenaming (js ''1700000000004'') (js ''Hello world''),
      SetRenameText (js '' Greeting ''),
      SaveRename (js ''1700000000004''),
      ImportChats (Parsed (IArr [chatC])),
      DeleteSession (js ''1700000000004'')]"

section \<open>Strings: split, join and trim\<close>

lemma splitFrom_not_Nil: "splitFrom sep cur s \<noteq> []"
  by (induction sep cur s rule: splitFrom.induct) auto

lemma join_js_Cons: "xs \<noteq> [] \<Longrightarrow> join_js (x # xs) sep = x @ sep @ join_js xs sep"
  by (cases xs) auto

lemma join_splitFrom: "sep \<noteq> [] \<Longrightarrow> join_js (splitFrom sep cur s) sep = cur @ s"
proof (induction sep cur s rule: splitFrom.induct)
  case (1 sep cur)
  then show ?case by simp
next
  case (2 sep cur c cs)
  show ?case
  proof (cases "prefix sep (c # cs)")
    case True
    then obtain rest where r: "c # cs = sep @ rest" by (auto simp: prefix_def)
    with \<open>sep \<noteq> []\<close> have d: "drop (length sep - 1) cs = rest"
      by (cases sep) auto
    from 2 True have "join_js (splitFrom sep [] (drop (length sep - 1) cs)) sep = drop (length sep - 1) cs"
      by simp
    then have j: "join_js (splitFrom sep [] rest) sep = rest" using d by simp
    have "splitFrom sep cur (c # cs) = cur # splitFrom sep [] rest"
      using True \<open>sep \<noteq> []\<close> d by simp
    then have "join_js (splitFrom sep cur (c # cs)) sep = cur @ sep @ rest"
      using j by (simp add: join_js_Cons splitFrom_not_Nil)
    with r show ?thesis by simp
  next
    case False
    with 2 show ?thesis by simp
  qed
qed

lemma splitFrom_no_sep: "\<not> includes_js s sep \<Longrightarrow> splitFrom sep cur s = [cur @ s]"
  by (induction s arbitrary: cur) auto

lemma includes_js_iff: "includes_js s sub \<longleftrightarrow> (\<exists>pre post. s = pre @ sub @ post)"
proof (induction s)
  case Nil
  then show ?case by auto
next
  case (Cons c cs)
  show ?case
  proof
    assume "includes_js (c # cs) sub"
    then consider "prefix sub (c # cs)" | "includes_js cs sub" by auto
    then show "\<exists>pre post. c # cs = pre @ sub @ post"
    proof cases
      case 1
      then obtain post where "c # cs = sub @ post" by (auto simp: prefix_def)
      then have "c # cs = [] @ sub @ post" by simp
      then show ?thesis by blast
    next
      case 2
      with Cons obtain pre post where "cs = pre @ sub @ post" by auto
      then have "c # cs = (c # pre) @ sub @ post" by simp
      then show ?thesis by blast
    qed
  next
    assume "\<exists>pre post. c # cs = pre @ sub @ post"
    then obtain pre post where e: "c # cs = pre @ sub @ post" by auto
    show "includes_js (c # cs) sub"
    proof (cases pre)
      case Nil
      with e have "prefix sub (c # cs)" by (simp add: prefix_def)
      then show ?thesis by simp
    next
      case (Cons p ps)
      with e have "cs = ps @ sub @ post" by simp
      with Cons.IH show ?thesis by auto
    qed
  qed
qed

lemma dropWhile_all_iff: "(\<forall>x\<in>set (dropWhile P xs). P x) \<longleftrightarrow> (\<forall>x\<in>set xs. P x)"
  by (induction xs) auto

lemma trim_empty_iff: "trim s = [] \<longleftrightarrow> (\<forall>c\<in>set s. isWhiteSpace c)"
  by (simp add: trim_def dropWhile_all_iff)

lemma trim_decompose:
  "\<exists>pre post. s = pre @ trim s @ post \<and> (\<forall>c\<in>set pre. isWhiteSpace c) \<and> (\<forall>c\<in>set post. isWhiteSpace c)"
proof -
  let ?d = "dropWhile isWhiteSpace s"
  have 1: "s = takeWhile isWhiteSpace s @ ?d" by simp
  have 2: "rev ?d = takeWhile isWhiteSpace (rev ?d) @ dropWhile isWhiteSpace (rev ?d)" by simp
  then have "?d = trim s @ rev (takeWhile isWhiteSpace (rev ?d))"
    unfolding trim_def by (metis rev_append rev_rev_ident)
  with 1 have "s = takeWhile isWhiteSpace s @ trim s @ rev (takeWhile isWhiteSpace (rev ?d))"
    by simp
  moreover have "\<forall>c\<in>set (takeWhile isWhiteSpace s). isWhiteSpace c"
    by (auto dest: set_takeWhileD)
  moreover have "\<forall>c\<in>set (rev (takeWhile isWhiteSpace (rev ?d))). isWhiteSpace c"
    by (auto dest: set_takeWhileD)
  ultimately show ?thesis by blast
qed

lemma trim_ends: "trim s \<noteq> [] \<Longrightarrow> \<not> isWhiteSpace (hd (trim s)) \<and> \<not> isWhiteSpace (last (trim s))"
proof -
  assume ne: "trim s \<noteq> []"
  let ?d = "dropWhile isWhiteSpace s"
  let ?e = "dropWhile isWhiteSpace (rev ?d)"
  from ne have ene: "?e \<noteq> []" by (simp add: trim_def)
  then have l: "\<not> isWhiteSpace (hd ?e)" by (rule hd_dropWhile)
  from ene have "last (trim s) = hd ?e" by (simp add: trim_def last_rev)
  with l have A: "\<not> isWhiteSpace (last (trim s))" by simp
  have dne: "?d \<noteq> []"
  proof
    assume "?d = []"
    then have "?e = []" by (simp only: rev.simps dropWhile.simps)
    with ene show False by (simp only:)
  qed
  then have hdd: "\<not> isWhiteSpace (hd ?d)" by (rule hd_dropWhile)
  have "rev ?d = takeWhile isWhiteSpace (rev ?d) @ ?e" by simp
  then have "?d = trim s @ rev (takeWhile isWhiteSpace (rev ?d))"
    unfolding trim_def by (metis rev_append rev_rev_ident)
  with ne have "hd ?d = hd (trim s)" by (metis hd_append2)
  with hdd show ?thesis using A by simp
qed

section \<open>Sorting\<close>

lemma mset_insert_js: "mset (insert_js cmp x ys) = add_mset x (mset ys)"
  by (induction ys) auto

lemma set_insert_js: "set (insert_js cmp x ys) = insert x (set ys)"
  by (induction ys) auto

lemma sort_js_Cons: "sort_js cmp (x # xs) = insert_js cmp x (sort_js cmp xs)"
  by (simp add: sort_js_def)

lemma sort_js_Nil: "sort_js cmp [] = []"
  by (simp add: sort_js_def)

lemma mset_sort_js: "mset (sort_js cmp xs) = mset xs"
  by (induction xs) (simp_all add: sort_js_Nil sort_js_Cons mset_insert_js)

lemma length_sort_js: "length (sort_js cmp xs) = length xs"
  using mset_sort_js [of cmp xs] by (metis size_mset)

lemma sorted_insert_js:
  assumes total: "\<And>a b. cmp a b \<le> 0 \<or> cmp b a \<le> 0"
    and trans: "\<And>a b c. cmp a b \<le> 0 \<Longrightarrow> cmp b c \<le> 0 \<Longrightarrow> cmp a c \<le> 0"
  shows "sorted_wrt (\<lambda>a b. cmp a b \<le> 0) ys \<Longrightarrow> sorted_wrt (\<lambda>a b. cmp a b \<le> 0) (insert_js cmp x ys)"
proof (induction ys)
  case Nil
  then show ?case by simp
next
  case (Cons y ys)
  show ?case
  proof (cases "cmp x y \<le> 0")
    case True
    have "\<forall>z\<in>set ys. cmp x z \<le> 0"
    proof
      fix z assume "z \<in> set ys"
      with Cons.prems have "cmp y z \<le> 0" by simp
      with True show "cmp x z \<le> 0" by (rule trans)
    qed
    with True Cons.prems show ?thesis by simp
  next
    case False
    with total [of x y] have yx: "cmp y x \<le> 0" by simp
    from Cons have "sorted_wrt (\<lambda>a b. cmp a b \<le> 0) (insert_js cmp x ys)" by simp
    with False yx Cons.prems show ?thesis by (simp add: set_insert_js)
  qed
qed

lemma sorted_sort_js:
  assumes total: "\<And>a b. cmp a b \<le> 0 \<or> cmp b a \<le> 0"
    and trans: "\<And>a b c. cmp a b \<le> 0 \<Longrightarrow> cmp b c \<le> 0 \<Longrightarrow> cmp a c \<le> 0"
  shows "sorted_wrt (\<lambda>a b. cmp a b \<le> 0) (sort_js cmp xs)"
proof (induction xs)
  case Nil
  show ?case by (simp add: sort_js_Nil)
next
  case (Cons x xs)
  have "sorted_wrt (\<lambda>a b. cmp a b \<le> 0) (insert_js cmp x (sort_js cmp xs))"
    using total trans Cons.IH by (rule sorted_insert_js)
  then show ?case by (simp only: sort_js_Cons)
qed

lemma sort_js_sorted:
  "sorted_wrt (\<lambda>a b. cmp a b \<le> 0) xs \<Longrightarrow> sort_js cmp xs = xs"
proof (induction xs)
  case Nil
  show ?case by (simp add: sort_js_Nil)
next
  case (Cons x xs)
  then have "sort_js cmp xs = xs" by simp
  with Cons.prems show ?case
    by (cases xs) (simp_all add: sort_js_Cons)
qed

lemma compareChats_le_iff:
  assumes "consistent_comparator lc"
  shows "compareChats lc a b \<le> 0 \<longleftrightarrow> pinnedThenDescendingId lc a b"
proof -
  from assms have anti: "\<And>x y. (lc x y < 0) = (lc y x > 0)"
    by (simp add: consistent_comparator_def)
  have "lc (id_chat b) (id_chat a) \<le> 0 \<longleftrightarrow> lc (id_chat a) (id_chat b) \<ge> 0"
    using anti [of "id_chat a" "id_chat b"] by auto
  then show ?thesis
    by (auto simp: compareChats_def pinnedThenDescendingId_def)
qed

lemma compareChats_total:
  assumes "consistent_comparator lc"
  shows "compareChats lc a b \<le> 0 \<or> compareChats lc b a \<le> 0"
proof -
  from assms have anti: "\<And>x y. (lc x y < 0) = (lc y x > 0)"
    by (simp add: consistent_comparator_def)
  have "lc (id_chat b) (id_chat a) \<le> 0 \<or> lc (id_chat a) (id_chat b) \<le> 0"
    using anti [of "id_chat a" "id_chat b"] by auto
  then show ?thesis
    by (auto simp: compareChats_def)
qed

lemma compareChats_trans:
  assumes c: "consistent_comparator lc"
    and ab: "compareChats lc a b \<le> 0" and bc: "compareChats lc b c \<le> 0"
  shows "compareChats lc a c \<le> 0"
proof -
  from c have trans: "\<And>x y z. lc x y \<le> 0 \<Longrightarrow> lc y z \<le> 0 \<Longrightarrow> lc x z \<le> 0"
    unfolding consistent_comparator_def by blast
  show ?thesis
  proof (cases "pinned a = pinned c")
    case True
    from ab bc True have eq: "pinned a = pinned b" "pinned b = pinned c"
      by (auto simp: compareChats_def split: if_splits)
    with ab bc have "lc (id_chat b) (id_chat a) \<le> 0" "lc (id_chat c) (id_chat b) \<le> 0"
      by (simp_all add: compareChats_def)
    then have "lc (id_chat c) (id_chat a) \<le> 0" using trans by blast
    with True show ?thesis by (simp add: compareChats_def)
  next
    case False
    with ab bc show ?thesis
      by (auto simp: compareChats_def split: if_splits)
  qed
qed

lemma sorted_compareChats:
  assumes "consistent_comparator lc"
  shows "sorted_wrt (pinnedThenDescendingId lc) (sort_js (compareChats lc) xs)"
proof -
  have "sorted_wrt (\<lambda>a b. compareChats lc a b \<le> 0) (sort_js (compareChats lc) xs)"
    using compareChats_total [OF assms] compareChats_trans [OF assms]
    by (rule sorted_sort_js)
  then show ?thesis
    by (simp add: compareChats_le_iff [OF assms])
qed

lemma codeUnitCompare_refl: "codeUnitCompare a a = 0"
  by (induction a) auto

lemma codeUnitCompare_anti: "(codeUnitCompare a b < 0) = (codeUnitCompare b a > 0)"
  by (induction a b rule: codeUnitCompare.induct) auto

lemma codeUnitCompare_trans:
  "codeUnitCompare a b \<le> 0 \<Longrightarrow> codeUnitCompare b c \<le> 0 \<Longrightarrow> codeUnitCompare a c \<le> 0"
proof (induction a b arbitrary: c rule: codeUnitCompare.induct)
  case 1
  then show ?case by simp
next
  case (2 y ys)
  then show ?case by (cases c) auto
next
  case (3 x xs)
  then show ?case by simp
next
  case (4 x xs y ys)
  then show ?case
    by (cases c) (auto split: if_splits)
qed

lemma codeUnitCompare_consistent: "consistent_comparator codeUnitCompare"
  unfolding consistent_comparator_def
  using codeUnitCompare_refl codeUnitCompare_anti codeUnitCompare_trans by blast

section \<open>Words of a question\<close>

lemma js_space: "js '' '' = [0x20]"
  by (simp add: js_def)

lemma js_two_spaces: "js ''  '' = [0x20, 0x20]"
  by (simp add: js_def)

lemma splitFrom_space_segments: "splitFrom [0x20] cur s = segmentsFrom cur s"
  by (induction s arbitrary: cur) auto

lemma split_js_space: "split_js t (js '' '') = segmentsFrom [] t"
  by (simp add: split_js_def js_space splitFrom_space_segments)

lemma join_segmentsFrom: "join_js (segmentsFrom cur s) (js '' '') = cur @ s"
  using join_splitFrom [of "[0x20]" cur s] by (simp add: js_space splitFrom_space_segments)

lemma isWhiteSpace_space: "isWhiteSpace 0x20"
  by (simp add: isWhiteSpace_def)

lemma segmentsFrom_no_space:
  "0x20 \<notin> set cur \<Longrightarrow> seg \<in> set (segmentsFrom cur s) \<Longrightarrow> 0x20 \<notin> set seg"
proof (induction s arbitrary: cur)
  case Nil
  then show ?case by simp
next
  case (Cons c cs)
  show ?case
  proof (cases "c = 0x20")
    case True
    with Cons.prems have "seg = cur \<or> seg \<in> set (segmentsFrom [] cs)" by simp
    then show ?thesis
    proof
      assume "seg = cur"
      with Cons.prems(1) show ?thesis by simp
    next
      assume "seg \<in> set (segmentsFrom [] cs)"
      then show ?thesis using Cons.IH [of "[]"] by simp
    qed
  next
    case False
    with Cons.prems have "seg \<in> set (segmentsFrom (cur @ [c]) cs)" by simp
    moreover from False Cons.prems(1) have "0x20 \<notin> set (cur @ [c])" by auto
    ultimately show ?thesis using Cons.IH [of "cur @ [c]"] by blast
  qed
qed

lemma segmentsFrom_words:
  assumes "\<forall>c\<in>set s. isWhiteSpace c \<longrightarrow> c = 0x20"
    and "\<not> includes_js s [0x20, 0x20]"
    and "cur \<noteq> [] \<or> (s \<noteq> [] \<and> hd s \<noteq> 0x20)"
    and "s = [] \<or> last s \<noteq> 0x20"
  shows "segmentsFrom cur s = wordsFrom cur s"
  using assms
proof (induction s arbitrary: cur)
  case Nil
  then show ?case by simp
next
  case (Cons c cs)
  from Cons.prems(1) have ws: "\<forall>c\<in>set cs. isWhiteSpace c \<longrightarrow> c = 0x20" by simp
  from Cons.prems(2) have ni: "\<not> includes_js cs [0x20, 0x20]" by simp
  show ?case
  proof (cases "c = 0x20")
    case True
    from Cons.prems(3) True have cur: "cur \<noteq> []" by simp
    from Cons.prems(4) True have cs: "cs \<noteq> []" by auto
    from Cons.prems(2) True cs have hd: "hd cs \<noteq> 0x20"
      by (cases cs) auto
    from Cons.prems(4) cs have la: "last cs \<noteq> 0x20" by simp
    have "segmentsFrom [] cs = wordsFrom [] cs"
      using ws ni cs hd la by (intro Cons.IH) auto
    with True cur show ?thesis by (simp add: isWhiteSpace_space)
  next
    case False
    with Cons.prems(1) have nw: "\<not> isWhiteSpace c" by auto
    from Cons.prems(4) have la: "cs = [] \<or> last cs \<noteq> 0x20" by (auto split: if_splits)
    have "segmentsFrom (cur @ [c]) cs = wordsFrom (cur @ [c]) cs"
      using ws ni la by (intro Cons.IH) auto
    with False nw show ?thesis by simp
  qed
qed

lemma shortName_segments:
  "shortName q = join_js (take 6 (segmentsFrom [] (trim q))) (js '' '')"
  by (simp add: shortName_def split_js_space)

lemma segments_firstSixWords:
  assumes ne: "trim q \<noteq> []"
    and ws: "\<forall>c\<in>set (trim q). isWhiteSpace c \<longrightarrow> c = 0x20"
    and single: "\<not> includes_js (trim q) (js ''  '')"
  shows "take 6 (segmentsFrom [] (trim q)) = firstSixWords q"
proof -
  from ne have "\<not> isWhiteSpace (hd (trim q)) \<and> \<not> isWhiteSpace (last (trim q))"
    by (rule trim_ends)
  then have "hd (trim q) \<noteq> 0x20" "last (trim q) \<noteq> 0x20"
    using isWhiteSpace_space by auto
  with ne ws single have "segmentsFrom [] (trim q) = wordsFrom [] (trim q)"
    by (intro segmentsFrom_words) (auto simp: js_two_spaces)
  then show ?thesis by (simp add: firstSixWords_def)
qed

lemma names_saveEffect: "map name (chatHistory (saveEffect s)) = map name (chatHistory s)"
  by (auto simp: saveEffect_def Let_def split: option.splits)

lemma askQuestion_names:
  assumes cur: "find (\<lambda>chat. Some (id_chat chat) = currentSessionId s) (chatHistory s) = Some currentChat"
    and dflt: "name currentChat = [] \<or> name currentChat = js ''New Chat''"
    and q: "trim (question s) \<noteq> []"
  shows "map name (chatHistory (askQuestion now s)) =
         map (\<lambda>chat. if Some (id_chat chat) = currentSessionId s then shortName (question s)
                    else name chat) (chatHistory s)"
  using assms by (auto simp: askQuestion_def Let_def)

lemma sampleApp_eq:
  "sampleApp = \<lparr>question = [], messages = [], chatHistory = [chatA, chatB],
      currentSessionId = Some (id_chat chatA), isTyping = False, editingChatId = None,
      renameText = [], allChats = Some [chatA, chatB], alerts = []\<rparr>"
  by (simp add: sampleApp_def mount_def saveEffect_def loadEffect_def initial_def storedChats_def Let_def
      chatA_def chatB_def js_def)

section \<open>The reply path\<close>

lemma thenOpt_component: "thenOpt (Inr v) p = Inr (component v p)"
  by (simp add: thenOpt_def optMember_def nullish_def member_def component_def
      split: option.splits json.splits)

lemma replyPath_valueAt: "replyPath data = Inr (valueAt data replyKeys)"
  by (simp add: replyPath_def valueAt_def replyKeys_def thenOpt_component)

lemma component_nullish: "nullish v \<Longrightarrow> component v p = None"
  by (auto simp: nullish_def component_def)

lemma foldl_component_nullish: "nullish v \<Longrightarrow> \<not> truthy (foldl component v ks)"
proof (induction ks arbitrary: v)
  case Nil
  then show ?case by (auto simp: nullish_def)
next
  case (Cons k ks)
  then have "component v k = None" by (simp add: component_nullish)
  moreover have "nullish None" by (simp add: nullish_def)
  ultimately show ?case using Cons.IH by simp
qed

lemma valueAt_prefix_nullish:
  assumes "nullish (valueAt data (take n ks))"
  shows "\<not> truthy (valueAt data ks)"
proof -
  have "valueAt data ks = foldl component (valueAt data (take n ks)) (drop n ks)"
    unfolding valueAt_def by (metis append_take_drop_id foldl_append)
  with assms show ?thesis by (simp add: foldl_component_nullish)
qed

lemma rawReply_falsy: "\<not> truthy (valueAt data replyKeys) \<Longrightarrow> rawReply data = Inr (JStr (js ''No response''))"
  by (cases "valueAt data replyKeys") (simp_all add: rawReply_def replyPath_valueAt)

lemma js_star_space: "js ''* '' \<noteq> []"
  by (simp add: js_def)

section \<open>Merging an import\<close>

lemma find_id_None: "find (\<lambda>c. id_chat c = k) xs = None \<longleftrightarrow> k \<notin> id_chat ` set xs"
  by (auto simp: find_None_iff)

lemma mergeChats_Nil: "mergeChats chats [] = chats"
  by (simp add: mergeChats_def)

lemma mergeChats_Cons:
  "mergeChats chats (x # xs) =
     mergeChats (if id_chat x \<in> id_chat ` set chats then chats else chats @ [x]) xs"
  by (simp add: mergeChats_def find_id_None)

lemma length_mergeChats:
  "length (mergeChats chats incoming) =
     length chats + card (id_chat ` set incoming - id_chat ` set chats)"
proof (induction incoming arbitrary: chats)
  case Nil
  show ?case by (simp add: mergeChats_Nil)
next
  case (Cons x xs)
  show ?case
  proof (cases "id_chat x \<in> id_chat ` set chats")
    case True
    then have "id_chat ` set (x # xs) - id_chat ` set chats = id_chat ` set xs - id_chat ` set chats"
      by auto
    with True Cons.IH [of chats] show ?thesis
      by (simp only: mergeChats_Cons if_True)
  next
    case False
    let ?K = "id_chat ` set xs" and ?C = "id_chat ` set chats"
    have fin: "finite (?K - ?C)" by simp
    have a: "id_chat ` set (x # xs) - ?C = insert (id_chat x) (?K - ?C)"
      using False by auto
    have b: "?K - id_chat ` set (chats @ [x]) = (?K - ?C) - {id_chat x}"
      by auto
    have "card (insert (id_chat x) (?K - ?C)) = Suc (card ((?K - ?C) - {id_chat x}))"
      using fin by (rule card.insert_remove)
    with a b have "card (id_chat ` set (x # xs) - ?C) = Suc (card (?K - id_chat ` set (chats @ [x])))"
      by simp
    moreover have "length (mergeChats chats (x # xs)) =
        length (chats @ [x]) + card (?K - id_chat ` set (chats @ [x]))"
      using False Cons.IH [of "chats @ [x]"] by (simp only: mergeChats_Cons if_False)
    ultimately show ?thesis by simp
  qed
qed

lemma mergeChats_first:
  "\<exists>ext. mergeChats chats incoming = chats @ ext
         \<and> subseq ext incoming
         \<and> distinct (map id_chat ext)
         \<and> id_chat ` set ext = id_chat ` set incoming - id_chat ` set chats
         \<and> (\<forall>c\<in>set ext. find (\<lambda>d. id_chat d = id_chat c) incoming = Some c)"
proof (induction incoming arbitrary: chats)
  case Nil
  show ?case by (simp add: mergeChats_Nil)
next
  case (Cons x xs)
  show ?case
  proof (cases "id_chat x \<in> id_chat ` set chats")
    case True
    from Cons.IH [of chats] obtain ext where
      e: "mergeChats chats xs = chats @ ext" "subseq ext xs" "distinct (map id_chat ext)"
      "id_chat ` set ext = id_chat ` set xs - id_chat ` set chats"
      "\<forall>c\<in>set ext. find (\<lambda>d. id_chat d = id_chat c) xs = Some c" by blast
    have 1: "mergeChats chats (x # xs) = chats @ ext"
      using True e(1) by (simp add: mergeChats_Cons)
    have 2: "subseq ext (x # xs)" using e(2) by (rule list_emb_Cons)
    have 3: "id_chat ` set ext = id_chat ` set (x # xs) - id_chat ` set chats"
      using True e(4) by auto
    have 4: "\<forall>c\<in>set ext. find (\<lambda>d. id_chat d = id_chat c) (x # xs) = Some c"
    proof
      fix c assume c: "c \<in> set ext"
      with e(4) have "id_chat c \<notin> id_chat ` set chats" by auto
      with True have "id_chat x \<noteq> id_chat c" by auto
      with c e(5) show "find (\<lambda>d. id_chat d = id_chat c) (x # xs) = Some c" by simp
    qed
    from 1 2 e(3) 3 4 show ?thesis by blast
  next
    case False
    from Cons.IH [of "chats @ [x]"] obtain ext where
      e: "mergeChats (chats @ [x]) xs = (chats @ [x]) @ ext" "subseq ext xs"
      "distinct (map id_chat ext)"
      "id_chat ` set ext = id_chat ` set xs - id_chat ` set (chats @ [x])"
      "\<forall>c\<in>set ext. find (\<lambda>d. id_chat d = id_chat c) xs = Some c" by blast
    have 1: "mergeChats chats (x # xs) = chats @ (x # ext)"
      using False e(1) by (simp add: mergeChats_Cons)
    have 2: "subseq (x # ext) (x # xs)" using e(2) by simp
    have nx: "id_chat x \<notin> id_chat ` set ext" using e(4) by auto
    with e(3) have 3: "distinct (map id_chat (x # ext))" by simp
    have 4: "id_chat ` set (x # ext) = id_chat ` set (x # xs) - id_chat ` set chats"
      using False e(4) by auto
    have 5: "\<forall>c\<in>set (x # ext). find (\<lambda>d. id_chat d = id_chat c) (x # xs) = Some c"
    proof
      fix c assume "c \<in> set (x # ext)"
      then consider "c = x" | "c \<in> set ext" by auto
      then show "find (\<lambda>d. id_chat d = id_chat c) (x # xs) = Some c"
      proof cases
        case 1
        then show ?thesis by simp
      next
        case 2
        with nx have "id_chat x \<noteq> id_chat c" by auto
        with 2 e(5) show ?thesis by simp
      qed
    qed
    from 1 2 3 4 5 show ?thesis by blast
  qed
qed

lemma mergeChats_known:
  "id_chat ` set incoming \<subseteq> id_chat ` set chats \<Longrightarrow> mergeChats chats incoming = chats"
  by (induction incoming) (simp_all add: mergeChats_Nil mergeChats_Cons)

lemma importChats_array:
  "importChats lc (Parsed (IArr incoming)) s =
     s\<lparr>allChats := Some (sort_js (compareChats lc) (mergeChats (chatHistory s) incoming)),
       chatHistory := sort_js (compareChats lc) (mergeChats (chatHistory s) incoming)\<rparr>"
  by (simp add: importChats_def readerOnload_def Let_def)

lemma chatHistory_importChats:
  "chatHistory (importChats lc (Parsed (IArr incoming)) s) =
     sort_js (compareChats lc) (mergeChats (chatHistory s) incoming)"
  by (simp add: importChats_array)

lemma chatHistory_togglePinChat:
  "chatHistory (togglePinChat lc i s) =
     sort_js (compareChats lc)
       (map (\<lambda>chat. if id_chat chat = i then chat\<lparr>pinned := \<not> pinned chat\<rparr> else chat)
          (chatHistory s))"
  by (simp add: togglePinChat_def Let_def)

lemma chatHistory_sampleApp: "chatHistory sampleApp = [chatA, chatB]"
  by (simp add: sampleApp_eq)

lemma sample_ids:
  "id_chat chatA \<noteq> id_chat chatB" "id_chat chatA \<noteq> id_chat chatC" "id_chat chatB \<noteq> id_chat chatC"
  "id_chat chatB \<noteq> id_chat chatA" "id_chat chatC \<noteq> id_chat chatA" "id_chat chatC \<noteq> id_chat chatB"
  "id_chat chatD = id_chat chatC"
  by (simp_all add: chatA_def chatB_def chatC_def chatD_def js_def)

lemma sample_order:
  "codeUnitCompare (id_chat chatA) (id_chat chatB) = - 1"
  "codeUnitCompare (id_chat chatB) (id_chat chatA) = 1"
  "codeUnitCompare (id_chat chatA) (id_chat chatC) = - 1"
  "codeUnitCompare (id_chat chatB) (id_chat chatC) = - 1"
  "codeUnitCompare (id_chat chatC) (id_chat chatA) = 1"
  "codeUnitCompare (id_chat chatC) (id_chat chatB) = 1"
  by (simp_all add: chatA_def chatB_def chatC_def js_def)

lemma sample_pinned: "\<not> pinned chatA" "\<not> pinned chatB" "pinned chatC" "\<not> pinned chatD"
  by (simp_all add: chatA_def chatB_def chatC_def chatD_def)

lemma js_append: "js a @ js b = js (a @ b)"
  by (simp add: js_def)

section \<open>Every event writes what it changes\<close>

lemma written_refl: "written s s"
  by (simp add: written_def)

lemma written_trans: "written s s' \<Longrightarrow> written s' s'' \<Longrightarrow> written s s''"
  by (auto simp: written_def)

lemma written_saveEffect: "written s (saveEffect s)"
  by (auto simp: written_def saveEffect_def Let_def split: option.splits)

lemma written_then_saveEffect: "written s s' \<Longrightarrow> written s (saveEffect s')"
  using written_saveEffect written_trans by blast

lemma written_createNewSession: "written s (createNewSession newId s)"
  by (simp add: written_def createNewSession_def Let_def)

lemma written_loadSession: "written s (loadSession i s)"
  by (simp add: written_def loadSession_def split: option.splits)

lemma written_deleteSession: "written s (deleteSession i s)"
  by (simp add: written_def deleteSession_def Let_def split: list.splits)

lemma written_refreshChat: "written s (refreshChat s)"
  by (simp add: written_def refreshChat_def)

lemma written_askQuestion: "written s (askQuestion now s)"
  by (simp add: written_def askQuestion_def Let_def split: option.splits)

lemma written_askQuestionReply: "written s (askQuestionReply now r s)"
  by (simp add: written_def askQuestionReply_def)

lemma written_togglePinChat: "written s (togglePinChat lc i s)"
  by (simp add: written_def togglePinChat_def Let_def)

lemma written_saveRename: "written s (saveRename i s)"
  by (simp add: written_def saveRename_def Let_def)

lemma written_readerOnload: "written s (readerOnload lc captured content s)"
  by (simp add: written_def readerOnload_def Let_def split: file_content.splits)

lemma written_fire: "written s (fire lc ev s)"
proof (cases ev)
  case (CreateNewSession newId)
  then show ?thesis
    by (simp add: written_then_saveEffect written_createNewSession)
next
  case (LoadSession i)
  then show ?thesis
    by (simp add: written_then_saveEffect written_loadSession written_refl)
next
  case (DeleteSession i)
  then show ?thesis
    by (simp add: written_then_saveEffect written_deleteSession)
next
  case RefreshChat
  then show ?thesis
    by (simp add: written_then_saveEffect written_refreshChat)
next
  case (SetQuestion q)
  then show ?thesis by (simp add: written_def)
next
  case (AskQuestion now)
  then show ?thesis
    by (simp add: written_then_saveEffect written_askQuestion written_refl)
next
  case (Reply now r)
  then show ?thesis
    by (simp add: written_then_saveEffect written_askQuestionReply)
next
  case (TogglePinChat i)
  then show ?thesis by (simp add: written_togglePinChat)
next
  case (StartRenaming i currentName)
  then show ?thesis by (simp add: written_def startRenaming_def)
next
  case (SetRenameText t)
  then show ?thesis by (simp add: written_def)
next
  case (SaveRename i)
  then show ?thesis by (simp add: written_saveRename)
next
  case CancelRename
  then show ?thesis by (simp add: written_def)
next
  case (ImportChats content)
  then show ?thesis by (simp add: importChats_def written_readerOnload)
next
  case (ReaderOnload captured content)
  then show ?thesis by (simp add: written_readerOnload)
qed

lemma written_stored:
  "written s s' \<Longrightarrow> storedChats s = chatHistory s \<Longrightarrow> storedChats s' = chatHistory s'"
  by (auto simp: written_def storedChats_def)

lemma stored_mount: "storedChats (mount stored) = chatHistory (mount stored)"
proof -
  have "storedChats (loadEffect (initial stored)) = chatHistory (loadEffect (initial stored))"
    by (simp add: loadEffect_def initial_def storedChats_def Let_def split: list.splits option.splits)
  with written_saveEffect show ?thesis
    unfolding mount_def by (rule written_stored)
qed

lemma stored_run:
  "storedChats s = chatHistory s \<Longrightarrow> storedChats (run lc evs s) = chatHistory (run lc evs s)"
proof (induction evs arbitrary: s)
  case Nil
  then show ?case by (simp add: run_def)
next
  case (Cons ev evs)
  from written_fire Cons.prems have "storedChats (fire lc ev s) = chatHistory (fire lc ev s)"
    by (rule written_stored)
  then have "storedChats (run lc evs (fire lc ev s)) = chatHistory (run lc evs (fire lc ev s))"
    by (rule Cons.IH)
  then show ?case by (simp add: run_def)
qed

section \<open>Appended messages and the store\<close>

lemma handlers_write:
  "allChats (createNewSession newId s) =
     Some (\<lparr>id_chat = newId, name = js ''New Chat'', pinned = False, messages_chat = []\<rparr>
           # chatHistory s)"
  "chatHistory (createNewSession newId s) =
     \<lparr>id_chat = newId, name = js ''New Chat'', pinned = False, messages_chat = []\<rparr>
       # chatHistory s"
  "allChats (deleteSession i s) = Some (filter (\<lambda>chat. id_chat chat \<noteq> i) (chatHistory s))"
  "chatHistory (deleteSession i s) = filter (\<lambda>chat. id_chat chat \<noteq> i) (chatHistory s)"
  "allChats (togglePinChat lc i s) = Some (chatHistory (togglePinChat lc i s))"
  "trim (renameText s) \<noteq> [] \<longrightarrow> allChats (saveRename i s) = Some (chatHistory (saveRename i s))"
  "allChats (readerOnload lc captured (Parsed (IArr incoming)) s) =
     Some (chatHistory (readerOnload lc captured (Parsed (IArr incoming)) s))"
  by (simp_all add: createNewSession_def deleteSession_def togglePinChat_def saveRename_def
      readerOnload_def Let_def split: list.splits)

lemma askQuestion_handler:
  "trim (question s) \<noteq> [] \<longrightarrow>
     messages (askQuestion now s) =
       messages s @ [\<lparr>sender = User, text_msg = Single (question s), timestamp = now\<rparr>]
     \<and> map messages_chat (chatHistory (askQuestion now s)) = map messages_chat (chatHistory s)
     \<and> (allChats (askQuestion now s) = allChats s
          \<or> allChats (askQuestion now s) = Some (chatHistory (askQuestion now s)))"
  by (auto simp: askQuestion_def Let_def split: option.splits)

lemma askQuestion_fields:
  assumes "trim (question s) \<noteq> []"
  shows "messages (askQuestion now s) =
           messages s @ [\<lparr>sender = User, text_msg = Single (question s), timestamp = now\<rparr>]"
    and "currentSessionId (askQuestion now s) = currentSessionId s"
    and "map id_chat (chatHistory (askQuestion now s)) = map id_chat (chatHistory s)"
    and "map messages_chat (chatHistory (askQuestion now s)) = map messages_chat (chatHistory s)"
  using assms by (auto simp: askQuestion_def Let_def split: option.splits)

lemma saveEffect_current:
  assumes "currentSessionId s = Some cur" "cur \<noteq> []"
  shows "messages (saveEffect s) = messages s"
    and "allChats (saveEffect s) = Some (chatHistory (saveEffect s))"
    and "map id_chat (chatHistory (saveEffect s)) = map id_chat (chatHistory s)"
    and "map messages_chat (chatHistory (saveEffect s)) =
           map (\<lambda>chat. if id_chat chat = cur then messages s else messages_chat chat) (chatHistory s)"
  using assms by (auto simp: saveEffect_def Let_def)

lemma saveEffect_none:
  "currentSessionId s = None \<Longrightarrow> saveEffect s = s"
  by (simp add: saveEffect_def)

lemma map_current_messages:
  "map id_chat xs = map id_chat ys \<Longrightarrow> map messages_chat xs = map messages_chat ys \<Longrightarrow>
   map (\<lambda>chat. if id_chat chat = cur then m else messages_chat chat) xs =
   map (\<lambda>chat. if id_chat chat = cur then m else messages_chat chat) ys"
proof (induction xs arbitrary: ys)
  case Nil
  then show ?case by simp
next
  case (Cons x xs)
  then obtain y ys' where ys: "ys = y # ys'" by (cases ys) auto
  with Cons.prems have "id_chat x = id_chat y" "messages_chat x = messages_chat y"
    "map id_chat xs = map id_chat ys'" "map messages_chat xs = map messages_chat ys'"
    by simp_all
  with Cons.IH [of ys'] ys show ?case by simp
qed

lemma askQuestion_stored:
  assumes q: "trim (question s) \<noteq> []" and c: "currentSessionId s = Some cur" and ne: "cur \<noteq> []"
  shows "messages (fire lc (AskQuestion now) s) =
           messages s @ [\<lparr>sender = User, text_msg = Single (question s), timestamp = now\<rparr>]
       \<and> allChats (fire lc (AskQuestion now) s) = Some (chatHistory (fire lc (AskQuestion now) s))
       \<and> map id_chat (chatHistory (fire lc (AskQuestion now) s)) = map id_chat (chatHistory s)
       \<and> map messages_chat (chatHistory (fire lc (AskQuestion now) s)) =
           map (\<lambda>chat. if id_chat chat = cur
                      then messages s @ [\<lparr>sender = User, text_msg = Single (question s), timestamp = now\<rparr>]
                      else messages_chat chat) (chatHistory s)"
proof -
  let ?h = "askQuestion now s"
  have f: "fire lc (AskQuestion now) s = saveEffect ?h" using q by simp
  have c': "currentSessionId ?h = Some cur" using askQuestion_fields(2) [OF q] c by simp
  note se = saveEffect_current [OF c' ne]
  note aq = askQuestion_fields [OF q, of now]
  have 1: "messages (saveEffect ?h) =
           messages s @ [\<lparr>sender = User, text_msg = Single (question s), timestamp = now\<rparr>]"
    using se(1) aq(1) by simp
  have 3: "map id_chat (chatHistory (saveEffect ?h)) = map id_chat (chatHistory s)"
    using se(3) aq(3) by simp
  have 4: "map messages_chat (chatHistory (saveEffect ?h)) =
           map (\<lambda>chat. if id_chat chat = cur
                      then messages s @ [\<lparr>sender = User, text_msg = Single (question s), timestamp = now\<rparr>]
                      else messages_chat chat) (chatHistory s)"
    using se(4) map_current_messages [OF aq(3) aq(4), of cur "messages ?h"] aq(1) by simp
  from 1 se(2) 3 4 show ?thesis unfolding f by blast
qed

lemma reply_stored:
  assumes c: "currentSessionId s = Some cur" and ne: "cur \<noteq> []"
  shows "messages (fire lc (Reply now r) s) =
           messages s @ [\<lparr>sender = Bot, text_msg = Lines (replyLines r), timestamp = now\<rparr>]
       \<and> allChats (fire lc (Reply now r) s) = Some (chatHistory (fire lc (Reply now r) s))
       \<and> map id_chat (chatHistory (fire lc (Reply now r) s)) = map id_chat (chatHistory s)
       \<and> map messages_chat (chatHistory (fire lc (Reply now r) s)) =
           map (\<lambda>chat. if id_chat chat = cur
                      then messages s @ [\<lparr>sender = Bot, text_msg = Lines (replyLines r), timestamp = now\<rparr>]
                      else messages_chat chat) (chatHistory s)"
proof -
  let ?h = "askQuestionReply now r s"
  have c': "currentSessionId ?h = Some cur" using c by (simp add: askQuestionReply_def)
  note se = saveEffect_current [OF c' ne]
  have h: "messages ?h = messages s @ [\<lparr>sender = Bot, text_msg = Lines (replyLines r), timestamp = now\<rparr>]"
    "chatHistory ?h = chatHistory s"
    by (simp_all add: askQuestionReply_def)
  from se h show ?thesis by simp
qed

lemma find_False: "find (\<lambda>x. False) xs = None"
  by (induction xs) simp_all

lemma no_session_not_stored:
  assumes c: "currentSessionId s = None"
  shows "(trim (question s) \<noteq> [] \<longrightarrow>
            messages (fire lc (AskQuestion now) s) =
              messages s @ [\<lparr>sender = User, text_msg = Single (question s), timestamp = now\<rparr>]
            \<and> chatHistory (fire lc (AskQuestion now) s) = chatHistory s
            \<and> allChats (fire lc (AskQuestion now) s) = allChats s)
       \<and> messages (fire lc (Reply now r) s) =
           messages s @ [\<lparr>sender = Bot, text_msg = Lines (replyLines r), timestamp = now\<rparr>]
       \<and> chatHistory (fire lc (Reply now r) s) = chatHistory s
       \<and> allChats (fire lc (Reply now r) s) = allChats s"
proof -
  have a: "currentSessionId (askQuestion now s) = None"
    using c by (auto simp: askQuestion_def Let_def split: option.splits)
  have b: "currentSessionId (askQuestionReply now r s) = None"
    using c by (simp add: askQuestionReply_def)
  have A: "trim (question s) \<noteq> [] \<longrightarrow>
            messages (fire lc (AskQuestion now) s) =
              messages s @ [\<lparr>sender = User, text_msg = Single (question s), timestamp = now\<rparr>]
            \<and> chatHistory (fire lc (AskQuestion now) s) = chatHistory s
            \<and> allChats (fire lc (AskQuestion now) s) = allChats s"
  proof
    assume q: "trim (question s) \<noteq> []"
    then have "fire lc (AskQuestion now) s = askQuestion now s"
      using saveEffect_none [OF a] by simp
    moreover have "messages (askQuestion now s) =
              messages s @ [\<lparr>sender = User, text_msg = Single (question s), timestamp = now\<rparr>]
            \<and> chatHistory (askQuestion now s) = chatHistory s
            \<and> allChats (askQuestion now s) = allChats s"
      using c q by (simp add: askQuestion_def Let_def find_False)
    ultimately show "messages (fire lc (AskQuestion now) s) =
              messages s @ [\<lparr>sender = User, text_msg = Single (question s), timestamp = now\<rparr>]
            \<and> chatHistory (fire lc (AskQuestion now) s) = chatHistory s
            \<and> allChats (fire lc (AskQuestion now) s) = allChats s"
      by (simp only:)
  qed
  have "fire lc (Reply now r) s = askQuestionReply now r s"
    using saveEffect_none [OF b] by simp
  moreover have "messages (askQuestionReply now r s) =
           messages s @ [\<lparr>sender = Bot, text_msg = Lines (replyLines r), timestamp = now\<rparr>]
       \<and> chatHistory (askQuestionReply now r s) = chatHistory s
       \<and> allChats (askQuestionReply now r s) = allChats s"
    by (simp add: askQuestionReply_def)
  ultimately have B: "messages (fire lc (Reply now r) s) =
           messages s @ [\<lparr>sender = Bot, text_msg = Lines (replyLines r), timestamp = now\<rparr>]
       \<and> chatHistory (fire lc (Reply now r) s) = chatHistory s
       \<and> allChats (fire lc (Reply now r) s) = allChats s"
    by (simp only:)
  from A B show ?thesis by blast
qed

lemma plansApp_eq:
  "plansApp = \<lparr>question = js ''Hi'', messages = [], chatHistory = [chatA, chatB],
      currentSessionId = Some (id_chat chatB), isTyping = False, editingChatId = None,
      renameText = [], allChats = Some [chatA, chatB], alerts = []\<rparr>"
  by (simp add: plansApp_def sampleApp_eq loadSession_def saveEffect_def Let_def
      chatA_def chatB_def js_def)

lemma emptyApp_eq:
  "emptyApp = \<lparr>question = js ''Hi'', messages = [], chatHistory = [],
      currentSessionId = None, isTyping = False, editingChatId = None,
      renameText = [], allChats = None, alerts = []\<rparr>"
  by (simp add: emptyApp_def mount_def saveEffect_def loadEffect_def initial_def storedChats_def)

lemma trim_Hi: "trim (js ''Hi'') = js ''Hi''"
  by (simp add: trim_def js_def isWhiteSpace_def)

section \<open>Claims\<close>

text \<open>
  C1. After \<^verbatim>\<open>togglePinChat\<close>, and after an import of an array, the session list is
  sorted: no pinned session follows an unpinned one, and sessions with the same pinned flag
  stand in descending order of their ids, the order being that of \<^verbatim>\<open>localeCompare\<close>.
  The list after \<^verbatim>\<open>togglePinChat\<close> holds the sessions of before, the one with the given
  id with its flag flipped.
\<close>

theorem sorted_after_togglePin_and_import:
  assumes "consistent_comparator lc"
  shows "sorted_wrt (pinnedThenDescendingId lc) (chatHistory (togglePinChat lc i s))
     \<and> mset (chatHistory (togglePinChat lc i s)) =
         mset (map (\<lambda>chat. if id_chat chat = i then chat\<lparr>pinned := \<not> pinned chat\<rparr> else chat)
                 (chatHistory s))
     \<and> sorted_wrt (pinnedThenDescendingId lc)
         (chatHistory (importChats lc (Parsed (IArr incoming)) s))"
  by (simp only: chatHistory_togglePinChat chatHistory_importChats
      sorted_compareChats [OF assms] mset_sort_js simp_thms)

theorem sorted_after_togglePin_and_import_witness:
  "consistent_comparator codeUnitCompare
   \<and> chatHistory (togglePinChat codeUnitCompare (id_chat chatA) sampleApp)
       = [chatA\<lparr>pinned := True\<rparr>, chatB]
   \<and> sorted_wrt (pinnedThenDescendingId codeUnitCompare)
       (chatHistory (togglePinChat codeUnitCompare (id_chat chatA) sampleApp))
   \<and> chatHistory (importChats codeUnitCompare (Parsed (IArr [chatC])) sampleApp)
       = [chatC, chatB, chatA]
   \<and> sorted_wrt (pinnedThenDescendingId codeUnitCompare)
       (chatHistory (importChats codeUnitCompare (Parsed (IArr [chatC])) sampleApp))"
proof -
  note th = sorted_after_togglePin_and_import [OF codeUnitCompare_consistent,
      of "id_chat chatA" sampleApp "[chatC]"]
  have 1: "chatHistory (togglePinChat codeUnitCompare (id_chat chatA) sampleApp)
       = [chatA\<lparr>pinned := True\<rparr>, chatB]"
    by (simp add: chatHistory_togglePinChat chatHistory_sampleApp sort_js_def compareChats_def
        sample_ids sample_order sample_pinned)
  have 2: "chatHistory (importChats codeUnitCompare (Parsed (IArr [chatC])) sampleApp)
       = [chatC, chatB, chatA]"
    by (simp add: chatHistory_importChats chatHistory_sampleApp mergeChats_Cons mergeChats_Nil
        sort_js_def compareChats_def sample_ids sample_order sample_pinned)
  from th 1 2 codeUnitCompare_consistent show ?thesis by simp
qed

text \<open>
  C2 (amended). From the first render on and after every event, whatever the events are, the
  list read back from the store is the session list of the component, and an event that
  changes the session list leaves the full new list in the store; an event is a handler call
  together with the render and the save effect it triggers. The handlers that create, delete,
  pin, rename (a non-blank name) and import (an array) write the full list themselves. The
  handler that appends a message does not: it leaves the messages of every session as they
  were, in memory and in what it stores. The save effect that follows stores the full list
  with the new message list in the sessions with the current id, for the question as for the
  reply, when a session is current; when none is, the message stays in the message list of
  the component and neither the session list nor the store changes.
\<close>

theorem stored_list_equals_chatHistory:
  "storedChats (run lc evs (mount stored)) = chatHistory (run lc evs (mount stored))
   \<and> (chatHistory (fire lc ev s) \<noteq> chatHistory s \<longrightarrow>
        allChats (fire lc ev s) = Some (chatHistory (fire lc ev s)))
   \<and> allChats (createNewSession newId s) =
       Some (\<lparr>id_chat = newId, name = js ''New Chat'', pinned = False, messages_chat = []\<rparr>
             # chatHistory s)
   \<and> chatHistory (createNewSession newId s) =
       \<lparr>id_chat = newId, name = js ''New Chat'', pinned = False, messages_chat = []\<rparr>
         # chatHistory s
   \<and> allChats (deleteSession i s) = Some (filter (\<lambda>chat. id_chat chat \<noteq> i) (chatHistory s))
   \<and> chatHistory (deleteSession i s) = filter (\<lambda>chat. id_chat chat \<noteq> i) (chatHistory s)
   \<and> allChats (togglePinChat lc i s) = Some (chatHistory (togglePinChat lc i s))
   \<and> (trim (renameText s) \<noteq> [] \<longrightarrow>
        allChats (saveRename i s) = Some (chatHistory (saveRename i s)))
   \<and> allChats (readerOnload lc captured (Parsed (IArr incoming)) s) =
       Some (chatHistory (readerOnload lc captured (Parsed (IArr incoming)) s))
   \<and> (trim (question s) \<noteq> [] \<longrightarrow>
        messages (askQuestion now s) =
          messages s @ [\<lparr>sender = User, text_msg = Single (question s), timestamp = now\<rparr>]
        \<and> map messages_chat (chatHistory (askQuestion now s)) = map messages_chat (chatHistory s)
        \<and> (allChats (askQuestion now s) = allChats s
             \<or> allChats (askQuestion now s) = Some (chatHistory (askQuestion now s))))
   \<and> (trim (question s) \<noteq> [] \<and> currentSessionId s = Some cur \<and> cur \<noteq> [] \<longrightarrow>
        messages (fire lc (AskQuestion now) s) =
          messages s @ [\<lparr>sender = User, text_msg = Single (question s), timestamp = now\<rparr>]
        \<and> allChats (fire lc (AskQuestion now) s) = Some (chatHistory (fire lc (AskQuestion now) s))
        \<and> map id_chat (chatHistory (fire lc (AskQuestion now) s)) = map id_chat (chatHistory s)
        \<and> map messages_chat (chatHistory (fire lc (AskQuestion now) s)) =
            map (\<lambda>chat. if id_chat chat = cur
                       then messages s @ [\<lparr>sender = User, text_msg = Single (question s), timestamp = now\<rparr>]
                       else messages_chat chat) (chatHistory s))
   \<and> (currentSessionId s = Some cur \<and> cur \<noteq> [] \<longrightarrow>
        messages (fire lc (Reply now r) s) =
          messages s @ [\<lparr>sender = Bot, text_msg = Lines (replyLines r), timestamp = now\<rparr>]
        \<and> allChats (fire lc (Reply now r) s) = Some (chatHistory (fire lc (Reply now r) s))
        \<and> map id_chat (chatHistory (fire lc (Reply now r) s)) = map id_chat (chatHistory s)
        \<and> map messages_chat (chatHistory (fire lc (Reply now r) s)) =
            map (\<lambda>chat. if id_chat chat = cur
                       then messages s @ [\<lparr>sender = Bot, text_msg = Lines (replyLines r), timestamp = now\<rparr>]
                       else messages_chat chat) (chatHistory s))
   \<and> (currentSessionId s = None \<longrightarrow>
        (trim (question s) \<noteq> [] \<longrightarrow>
            messages (fire lc (AskQuestion now) s) =
              messages s @ [\<lparr>sender = User, text_msg = Single (question s), timestamp = now\<rparr>]
            \<and> chatHistory (fire lc (AskQuestion now) s) = chatHistory s
            \<and> allChats (fire lc (AskQuestion now) s) = allChats s)
        \<and> messages (fire lc (Reply now r) s) =
            messages s @ [\<lparr>sender = Bot, text_msg = Lines (replyLines r), timestamp = now\<rparr>]
        \<and> chatHistory (fire lc (Reply now r) s) = chatHistory s
        \<and> allChats (fire lc (Reply now r) s) = allChats s)"
proof -
  have 1: "storedChats (run lc evs (mount stored)) = chatHistory (run lc evs (mount stored))"
    using stored_mount by (rule stored_run)
  have 2: "chatHistory (fire lc ev s) \<noteq> chatHistory s \<longrightarrow>
        allChats (fire lc ev s) = Some (chatHistory (fire lc ev s))"
    using written_fire [of s lc ev] by (auto simp: written_def)
  have 3: "trim (question s) \<noteq> [] \<and> currentSessionId s = Some cur \<and> cur \<noteq> [] \<longrightarrow>
        messages (fire lc (AskQuestion now) s) =
          messages s @ [\<lparr>sender = User, text_msg = Single (question s), timestamp = now\<rparr>]
        \<and> allChats (fire lc (AskQuestion now) s) = Some (chatHistory (fire lc (AskQuestion now) s))
        \<and> map id_chat (chatHistory (fire lc (AskQuestion now) s)) = map id_chat (chatHistory s)
        \<and> map messages_chat (chatHistory (fire lc (AskQuestion now) s)) =
            map (\<lambda>chat. if id_chat chat = cur
                       then messages s @ [\<lparr>sender = User, text_msg = Single (question s), timestamp = now\<rparr>]
                       else messages_chat chat) (chatHistory s)"
    using askQuestion_stored by blast
  have 4: "currentSessionId s = Some cur \<and> cur \<noteq> [] \<longrightarrow>
        messages (fire lc (Reply now r) s) =
          messages s @ [\<lparr>sender = Bot, text_msg = Lines (replyLines r), timestamp = now\<rparr>]
        \<and> allChats (fire lc (Reply now r) s) = Some (chatHistory (fire lc (Reply now r) s))
        \<and> map id_chat (chatHistory (fire lc (Reply now r) s)) = map id_chat (chatHistory s)
        \<and> map messages_chat (chatHistory (fire lc (Reply now r) s)) =
            map (\<lambda>chat. if id_chat chat = cur
                       then messages s @ [\<lparr>sender = Bot, text_msg = Lines (replyLines r), timestamp = now\<rparr>]
                       else messages_chat chat) (chatHistory s)"
    using reply_stored by blast
  have 5: "currentSessionId s = None \<longrightarrow>
        (trim (question s) \<noteq> [] \<longrightarrow>
            messages (fire lc (AskQuestion now) s) =
              messages s @ [\<lparr>sender = User, text_msg = Single (question s), timestamp = now\<rparr>]
            \<and> chatHistory (fire lc (AskQuestion now) s) = chatHistory s
            \<and> allChats (fire lc (AskQuestion now) s) = allChats s)
        \<and> messages (fire lc (Reply now r) s) =
            messages s @ [\<lparr>sender = Bot, text_msg = Lines (replyLines r), timestamp = now\<rparr>]
        \<and> chatHistory (fire lc (Reply now r) s) = chatHistory s
        \<and> allChats (fire lc (Reply now r) s) = allChats s"
    using no_session_not_stored by blast
  show ?thesis
    by (intro conjI) (fact 1, fact 2, fact handlers_write(1), fact handlers_write(2),
        fact handlers_write(3), fact handlers_write(4), fact handlers_write(5),
        fact handlers_write(6), fact handlers_write(7), fact askQuestion_handler,
        fact 3, fact 4, fact 5)
qed

theorem stored_list_equals_chatHistory_witness:
  "chatHistory (fire codeUnitCompare (DeleteSession (id_chat chatA)) sampleApp) = [chatB]
   \<and> chatHistory sampleApp = [chatA, chatB]
   \<and> allChats (fire codeUnitCompare (DeleteSession (id_chat chatA)) sampleApp) = Some [chatB]
   \<and> storedChats (run codeUnitCompare sampleEvents (mount None)) =
       chatHistory (run codeUnitCompare sampleEvents (mount None))
   \<and> trim (question plansApp) \<noteq> []
   \<and> currentSessionId plansApp = Some (id_chat chatB)
   \<and> id_chat chatB \<noteq> []
   \<and> allChats (fire codeUnitCompare (AskQuestion (js ''2026-01-01T00:00:00.000Z'')) plansApp) =
       Some [chatA, chatB\<lparr>messages_chat :=
               [\<lparr>sender = User, text_msg = Single (js ''Hi''),
                 timestamp = js ''2026-01-01T00:00:00.000Z''\<rparr>]\<rparr>]"
proof -
  note th = stored_list_equals_chatHistory [of codeUnitCompare sampleEvents None
      "DeleteSession (id_chat chatA)" sampleApp]
  note th2 = stored_list_equals_chatHistory [of codeUnitCompare "[]" None
      "AskQuestion (js ''2026-01-01T00:00:00.000Z'')" plansApp _ _ _ _
      "js ''2026-01-01T00:00:00.000Z''" "id_chat chatB"]
  have ids: "id_chat chatB \<noteq> id_chat chatA" "id_chat chatA \<noteq> id_chat chatB"
    by (simp_all add: chatA_def chatB_def js_def)
  have 1: "chatHistory (fire codeUnitCompare (DeleteSession (id_chat chatA)) sampleApp) = [chatB]"
    using ids by (simp add: sampleApp_eq deleteSession_def saveEffect_def Let_def)
  have 2: "chatHistory sampleApp = [chatA, chatB]"
    by (simp add: sampleApp_eq)
  from 1 2 have "chatHistory (fire codeUnitCompare (DeleteSession (id_chat chatA)) sampleApp)
      \<noteq> chatHistory sampleApp"
    by simp
  with th have "allChats (fire codeUnitCompare (DeleteSession (id_chat chatA)) sampleApp) =
      Some (chatHistory (fire codeUnitCompare (DeleteSession (id_chat chatA)) sampleApp))"
    by blast
  with 1 have 3: "allChats (fire codeUnitCompare (DeleteSession (id_chat chatA)) sampleApp) = Some [chatB]"
    by simp
  from th have 4: "storedChats (run codeUnitCompare sampleEvents (mount None)) =
       chatHistory (run codeUnitCompare sampleEvents (mount None))"
    by blast
  have 5: "trim (question plansApp) \<noteq> []"
    by (simp add: plansApp_eq trim_Hi) (simp add: js_def)
  have 6: "currentSessionId plansApp = Some (id_chat chatB)"
    by (simp add: plansApp_eq)
  have 7: "id_chat chatB \<noteq> []"
    by (simp add: chatB_def js_def)
  from th2 5 6 7
  have 8: "allChats (fire codeUnitCompare (AskQuestion (js ''2026-01-01T00:00:00.000Z'')) plansApp) =
       Some (chatHistory (fire codeUnitCompare (AskQuestion (js ''2026-01-01T00:00:00.000Z'')) plansApp))"
    by blast
  have n: "name chatB \<noteq> []" "name chatB \<noteq> js ''New Chat''"
    by (simp_all add: chatB_def js_def)
  have 9: "chatHistory (fire codeUnitCompare (AskQuestion (js ''2026-01-01T00:00:00.000Z'')) plansApp) =
       [chatA, chatB\<lparr>messages_chat :=
               [\<lparr>sender = User, text_msg = Single (js ''Hi''),
                 timestamp = js ''2026-01-01T00:00:00.000Z''\<rparr>]\<rparr>]"
    using 5 7 ids n
    by (simp add: plansApp_eq askQuestion_def saveEffect_def Let_def)
  from 8 9 have 10: "allChats (fire codeUnitCompare (AskQuestion (js ''2026-01-01T00:00:00.000Z'')) plansApp) =
       Some [chatA, chatB\<lparr>messages_chat :=
               [\<lparr>sender = User, text_msg = Single (js ''Hi''),
                 timestamp = js ''2026-01-01T00:00:00.000Z''\<rparr>]\<rparr>]"
    by simp
  show ?thesis
    by (intro conjI) (fact 1, fact 2, fact 3, fact 4, fact 5, fact 6, fact 7, fact 10)
qed

text \<open>
  With the session \<^verbatim>\<open>"Plans"\<close> current, the handler returns with the question in the
  message list and the stored session still without it; with no session current the
  question is in the message list after the event and nothing is stored at all.
\<close>

theorem message_append_counterexample:
  "currentSessionId plansApp = Some (id_chat chatB)
   \<and> messages (askQuestion (js ''2026-01-01T00:00:00.000Z'') plansApp) =
       [\<lparr>sender = User, text_msg = Single (js ''Hi''), timestamp = js ''2026-01-01T00:00:00.000Z''\<rparr>]
   \<and> allChats (askQuestion (js ''2026-01-01T00:00:00.000Z'') plansApp) = Some [chatA, chatB]
   \<and> messages_chat chatB = []
   \<and> currentSessionId emptyApp = None
   \<and> messages (fire codeUnitCompare (AskQuestion (js ''2026-01-01T00:00:00.000Z'')) emptyApp) =
       [\<lparr>sender = User, text_msg = Single (js ''Hi''), timestamp = js ''2026-01-01T00:00:00.000Z''\<rparr>]
   \<and> chatHistory (fire codeUnitCompare (AskQuestion (js ''2026-01-01T00:00:00.000Z'')) emptyApp) = []
   \<and> allChats (fire codeUnitCompare (AskQuestion (js ''2026-01-01T00:00:00.000Z'')) emptyApp) = None"
proof -
  have t: "trim (js ''Hi'') \<noteq> []"
    by (simp add: trim_Hi) (simp add: js_def)
  have ids: "id_chat chatA \<noteq> id_chat chatB"
    by (simp add: chatA_def chatB_def js_def)
  have n: "name chatB \<noteq> []" "name chatB \<noteq> js ''New Chat''"
    by (simp_all add: chatB_def js_def)
  have m: "messages_chat chatB = []"
    by (simp add: chatB_def)
  have a: "messages (askQuestion (js ''2026-01-01T00:00:00.000Z'') plansApp) =
       [\<lparr>sender = User, text_msg = Single (js ''Hi''), timestamp = js ''2026-01-01T00:00:00.000Z''\<rparr>]
     \<and> allChats (askQuestion (js ''2026-01-01T00:00:00.000Z'') plansApp) = Some [chatA, chatB]"
    using t ids n by (simp add: plansApp_eq askQuestion_def Let_def)
  have b: "messages (fire codeUnitCompare (AskQuestion (js ''2026-01-01T00:00:00.000Z'')) emptyApp) =
       [\<lparr>sender = User, text_msg = Single (js ''Hi''), timestamp = js ''2026-01-01T00:00:00.000Z''\<rparr>]
     \<and> chatHistory (fire codeUnitCompare (AskQuestion (js ''2026-01-01T00:00:00.000Z'')) emptyApp) = []
     \<and> allChats (fire codeUnitCompare (AskQuestion (js ''2026-01-01T00:00:00.000Z'')) emptyApp) = None"
    using t by (simp add: emptyApp_eq askQuestion_def saveEffect_def Let_def)
  from a b m show ?thesis by (simp add: plansApp_eq emptyApp_eq)
qed

text \<open>
  C3. When the parsed import document is not an array, the import changes nothing but the
  alerts: the message \<^verbatim>\<open>"Failed to import chats: Invalid format"\<close> is shown, and the
  session list and the stored list are those of before.
\<close>

theorem import_non_array_rejected:
  assumes "\<not> isArray imported"
  shows "readerOnload lc captured (Parsed imported) s =
           s\<lparr>alerts := alerts s @ [js ''Failed to import chats: Invalid format'']\<rparr>
     \<and> chatHistory (importChats lc (Parsed imported) s) = chatHistory s
     \<and> allChats (importChats lc (Parsed imported) s) = allChats s
     \<and> alerts (importChats lc (Parsed imported) s) =
         alerts s @ [js ''Failed to import chats: Invalid format'']"
  using assms by (simp add: importChats_def readerOnload_def js_append)

theorem import_non_array_rejected_witness:
  "\<not> isArray (IObj [(js ''chats'', JArr [])])
   \<and> chatHistory (importChats codeUnitCompare (Parsed (IObj [(js ''chats'', JArr [])])) sampleApp)
       = [chatA, chatB]
   \<and> allChats (importChats codeUnitCompare (Parsed (IObj [(js ''chats'', JArr [])])) sampleApp)
       = Some [chatA, chatB]
   \<and> alerts (importChats codeUnitCompare (Parsed (IObj [(js ''chats'', JArr [])])) sampleApp)
       = [js ''Failed to import chats: Invalid format'']"
proof -
  have h: "\<not> isArray (IObj [(js ''chats'', JArr [])])" by simp
  from import_non_array_rejected [OF h, of codeUnitCompare "chatHistory sampleApp" sampleApp] h
  show ?thesis by (simp add: sampleApp_eq)
qed

text \<open>
  C4 (amended). Importing an array of sessions yields the sorted list of the sessions of
  before and the added ones. The added sessions are, in the order of the document, for each
  id of the document that is not in the list yet the first incoming session with that id:
  an incoming session whose id is in the list already, or is the id of an earlier session
  of the document, is skipped. So the number of sessions grows by the number of distinct new
  ids, which is the number of incoming sessions with a new id when these have pairwise
  distinct ids, and the sessions of the result whose id was in the list before are exactly
  the sessions of before.
\<close>

theorem import_adds_distinct_new_ids:
  "(\<exists>added.
       chatHistory (importChats lc (Parsed (IArr incoming)) s) =
         sort_js (compareChats lc) (chatHistory s @ added)
     \<and> mset (chatHistory (importChats lc (Parsed (IArr incoming)) s)) =
         mset (chatHistory s) + mset added
     \<and> subseq added incoming
     \<and> distinct (map id_chat added)
     \<and> id_chat ` set added = id_chat ` set incoming - id_chat ` set (chatHistory s)
     \<and> (\<forall>c\<in>set added. find (\<lambda>d. id_chat d = id_chat c) incoming = Some c))
   \<and> length (chatHistory (importChats lc (Parsed (IArr incoming)) s)) =
     length (chatHistory s) + card (id_chat ` set incoming - id_chat ` set (chatHistory s))
   \<and> (distinct (map id_chat (filter (\<lambda>c. id_chat c \<notin> id_chat ` set (chatHistory s)) incoming)) \<longrightarrow>
        length (chatHistory (importChats lc (Parsed (IArr incoming)) s)) =
          length (chatHistory s)
          + length (filter (\<lambda>c. id_chat c \<notin> id_chat ` set (chatHistory s)) incoming))
   \<and> mset (filter (\<lambda>c. id_chat c \<in> id_chat ` set (chatHistory s))
              (chatHistory (importChats lc (Parsed (IArr incoming)) s))) = mset (chatHistory s)"
proof -
  let ?old = "chatHistory s"
  let ?new = "filter (\<lambda>c. id_chat c \<notin> id_chat ` set ?old) incoming"
  let ?res = "chatHistory (importChats lc (Parsed (IArr incoming)) s)"
  obtain ext where e: "mergeChats ?old incoming = ?old @ ext" "subseq ext incoming"
    "distinct (map id_chat ext)"
    "id_chat ` set ext = id_chat ` set incoming - id_chat ` set ?old"
    "\<forall>c\<in>set ext. find (\<lambda>d. id_chat d = id_chat c) incoming = Some c"
    using mergeChats_first [of ?old incoming] by blast
  have r: "?res = sort_js (compareChats lc) (?old @ ext)"
    by (simp only: chatHistory_importChats e(1))
  then have m: "mset ?res = mset ?old + mset ext"
    by (simp add: mset_sort_js)
  from r m e have 0: "\<exists>added. ?res = sort_js (compareChats lc) (?old @ added)
     \<and> mset ?res = mset ?old + mset added
     \<and> subseq added incoming
     \<and> distinct (map id_chat added)
     \<and> id_chat ` set added = id_chat ` set incoming - id_chat ` set ?old
     \<and> (\<forall>c\<in>set added. find (\<lambda>d. id_chat d = id_chat c) incoming = Some c)"
    by blast
  have 1: "length ?res = length ?old + card (id_chat ` set incoming - id_chat ` set ?old)"
    by (simp add: chatHistory_importChats length_sort_js length_mergeChats)
  have 2: "distinct (map id_chat ?new) \<longrightarrow> length ?res = length ?old + length ?new"
  proof
    assume d: "distinct (map id_chat ?new)"
    have "id_chat ` set incoming - id_chat ` set ?old = set (map id_chat ?new)"
      by auto
    then have "card (id_chat ` set incoming - id_chat ` set ?old) = length (map id_chat ?new)"
      using d by (simp only: distinct_card)
    with 1 show "length ?res = length ?old + length ?new" by simp
  qed
  have "mset (filter (\<lambda>c. id_chat c \<in> id_chat ` set ?old) ?res) =
        filter_mset (\<lambda>c. id_chat c \<in> id_chat ` set ?old) (mset (?old @ ext))"
    by (simp only: r mset_filter mset_sort_js)
  also have "\<dots> = mset ?old + mset (filter (\<lambda>c. id_chat c \<in> id_chat ` set ?old) ext)"
    by (simp add: filter_mset_eq_conv)
  also have "filter (\<lambda>c. id_chat c \<in> id_chat ` set ?old) ext = []"
    using e(4) by (auto simp: filter_empty_conv)
  finally have 3: "mset (filter (\<lambda>c. id_chat c \<in> id_chat ` set ?old) ?res) = mset ?old"
    by simp
  show ?thesis by (intro conjI) (fact 0, fact 1, fact 2, fact 3)
qed

theorem import_adds_distinct_new_ids_witness:
  "distinct (map id_chat (filter (\<lambda>c. id_chat c \<notin> id_chat ` set (chatHistory sampleApp)) [chatB, chatC]))
   \<and> length (filter (\<lambda>c. id_chat c \<notin> id_chat ` set (chatHistory sampleApp)) [chatB, chatC]) = 1
   \<and> length (chatHistory (importChats codeUnitCompare (Parsed (IArr [chatB, chatC])) sampleApp)) = 3
   \<and> chatHistory (importChats codeUnitCompare (Parsed (IArr [chatC, chatD])) sampleApp)
       = [chatC, chatB, chatA]"
proof -
  have f: "filter (\<lambda>c. id_chat c \<notin> id_chat ` set (chatHistory sampleApp)) [chatB, chatC] = [chatC]"
    using sample_ids by (simp add: chatHistory_sampleApp)
  then have d: "distinct (map id_chat (filter (\<lambda>c. id_chat c \<notin> id_chat ` set (chatHistory sampleApp)) [chatB, chatC]))"
    by simp
  from import_adds_distinct_new_ids [of codeUnitCompare "[chatB, chatC]" sampleApp] d
  have "length (chatHistory (importChats codeUnitCompare (Parsed (IArr [chatB, chatC])) sampleApp)) =
          length (chatHistory sampleApp)
          + length (filter (\<lambda>c. id_chat c \<notin> id_chat ` set (chatHistory sampleApp)) [chatB, chatC])"
    by blast
  then have l: "length (chatHistory (importChats codeUnitCompare (Parsed (IArr [chatB, chatC])) sampleApp)) = 3"
    using f by (simp add: chatHistory_sampleApp)
  from import_adds_distinct_new_ids [of codeUnitCompare "[chatC, chatD]" sampleApp]
  obtain added where a:
    "chatHistory (importChats codeUnitCompare (Parsed (IArr [chatC, chatD])) sampleApp) =
       sort_js (compareChats codeUnitCompare) (chatHistory sampleApp @ added)"
    "subseq added [chatC, chatD]" "distinct (map id_chat added)"
    "id_chat ` set added = id_chat ` set [chatC, chatD] - id_chat ` set (chatHistory sampleApp)"
    "\<forall>c\<in>set added. find (\<lambda>d. id_chat d = id_chat c) [chatC, chatD] = Some c"
    by blast
  have fc: "\<And>c. id_chat c = id_chat chatC \<Longrightarrow> find (\<lambda>d. id_chat d = id_chat c) [chatC, chatD] = Some chatC"
    by simp
  have ids: "id_chat ` set added = {id_chat chatC}"
    using a(4) sample_ids by (auto simp: chatHistory_sampleApp)
  have all: "\<forall>c\<in>set added. c = chatC"
  proof
    fix c assume c: "c \<in> set added"
    with ids have "id_chat c = id_chat chatC" by auto
    then have "find (\<lambda>d. id_chat d = id_chat c) [chatC, chatD] = Some chatC" by (rule fc)
    with a(5) c show "c = chatC" by auto
  qed
  from ids have ne: "added \<noteq> []" by auto
  have "added = [chatC]"
  proof (cases added)
    case Nil
    with ne show ?thesis by simp
  next
    case (Cons y ys)
    with all have y: "y = chatC" by simp
    have "ys = []"
    proof (cases ys)
      case Nil
      then show ?thesis .
    next
      case (Cons z zs)
      with all \<open>added = y # ys\<close> have "z = chatC" by simp
      with y Cons \<open>added = y # ys\<close> a(3) show ?thesis by simp
    qed
    with y Cons show ?thesis by simp
  qed
  with a(1) have r: "chatHistory (importChats codeUnitCompare (Parsed (IArr [chatC, chatD])) sampleApp)
       = [chatC, chatB, chatA]"
    by (simp add: chatHistory_sampleApp sort_js_def compareChats_def sample_ids sample_order sample_pinned)
  from d f l r show ?thesis by simp
qed

text \<open>
  Two incoming sessions that share one new id add one session, not two: the merge loop looks
  each id up in the list it is building.
\<close>

theorem import_count_counterexample:
  "length (filter (\<lambda>c. id_chat c \<notin> id_chat ` set (chatHistory sampleApp)) [chatC, chatD]) = 2
   \<and> length (chatHistory (importChats codeUnitCompare (Parsed (IArr [chatC, chatD])) sampleApp))
       = length (chatHistory sampleApp) + 1"
  using sample_ids
  by (simp add: chatHistory_importChats chatHistory_sampleApp mergeChats_Cons mergeChats_Nil
      length_sort_js)

text \<open>
  C5. Importing an array all of whose ids are in the list already yields the sorted list of
  before: the same sessions, each with its id, name, pinned flag and messages, in the
  pinned-then-descending-id order; a list that was in that order stays as it is.
\<close>

theorem import_known_ids_only_resorts:
  assumes "id_chat ` set incoming \<subseteq> id_chat ` set (chatHistory s)"
  shows "chatHistory (importChats lc (Parsed (IArr incoming)) s) =
           sort_js (compareChats lc) (chatHistory s)
     \<and> mset (chatHistory (importChats lc (Parsed (IArr incoming)) s)) = mset (chatHistory s)
     \<and> (consistent_comparator lc \<longrightarrow>
          sorted_wrt (pinnedThenDescendingId lc)
            (chatHistory (importChats lc (Parsed (IArr incoming)) s))
          \<and> (sorted_wrt (pinnedThenDescendingId lc) (chatHistory s) \<longrightarrow>
               chatHistory (importChats lc (Parsed (IArr incoming)) s) = chatHistory s))"
proof -
  have 1: "chatHistory (importChats lc (Parsed (IArr incoming)) s) =
           sort_js (compareChats lc) (chatHistory s)"
    using assms by (simp add: chatHistory_importChats mergeChats_known)
  have 2: "sort_js (compareChats lc) (chatHistory s) = chatHistory s"
    if "consistent_comparator lc" "sorted_wrt (pinnedThenDescendingId lc) (chatHistory s)"
  proof -
    from that have "sorted_wrt (\<lambda>a b. compareChats lc a b \<le> 0) (chatHistory s)"
      by (simp add: compareChats_le_iff)
    then show ?thesis by (rule sort_js_sorted)
  qed
  from 1 2 show ?thesis
    by (simp add: mset_sort_js sorted_compareChats)
qed

theorem import_known_ids_only_resorts_witness:
  "id_chat ` set [chatB\<lparr>name := js ''Other''\<rparr>, chatA] \<subseteq> id_chat ` set (chatHistory sampleApp)
   \<and> consistent_comparator codeUnitCompare
   \<and> chatHistory (importChats codeUnitCompare (Parsed (IArr [chatB\<lparr>name := js ''Other''\<rparr>, chatA])) sampleApp)
       = [chatB, chatA]
   \<and> mset (chatHistory (importChats codeUnitCompare (Parsed (IArr [chatB\<lparr>name := js ''Other''\<rparr>, chatA])) sampleApp))
       = mset (chatHistory sampleApp)"
proof -
  have h: "id_chat ` set [chatB\<lparr>name := js ''Other''\<rparr>, chatA] \<subseteq> id_chat ` set (chatHistory sampleApp)"
    by (simp add: chatHistory_sampleApp)
  have s: "sort_js (compareChats codeUnitCompare) [chatA, chatB] = [chatB, chatA]"
    by (simp add: sort_js_def compareChats_def sample_order sample_pinned)
  from import_known_ids_only_resorts [OF h, of codeUnitCompare] h s codeUnitCompare_consistent
  show ?thesis by (simp add: chatHistory_sampleApp)
qed

text \<open>
  C6 (amended). The lines of a bot message are the segments of the reply between the
  occurrences of \<^verbatim>\<open>"* "\<close>, each trimmed, without the empty ones, in order; joining
  the untrimmed segments with \<^verbatim>\<open>"* "\<close> gives the reply back. The reply
  \<^verbatim>\<open>"* First point* Second point"\<close> yields \<^verbatim>\<open>["First point", "Second point"]\<close>. A
  reply without the delimiter yields the one line that is the trimmed reply, and no line
  at all when the reply consists of white space only.
\<close>

theorem botLines_transform:
  "botLines reply = filter (\<lambda>line. line \<noteq> []) (map trim (split_js reply (js ''* '')))
   \<and> join_js (split_js reply (js ''* '')) (js ''* '') = reply
   \<and> botLines (js ''* First point* Second point'') = [js ''First point'', js ''Second point'']
   \<and> (\<not> includes_js reply (js ''* '') \<longrightarrow>
        botLines reply = (if \<forall>c\<in>set reply. isWhiteSpace c then [] else [trim reply]))"
proof -
  have 1: "botLines reply = filter (\<lambda>line. line \<noteq> []) (map trim (split_js reply (js ''* '')))"
    by (simp add: botLines_def)
  have 2: "join_js (split_js reply (js ''* '')) (js ''* '') = reply"
    using join_splitFrom [OF js_star_space, of "[]" reply]
    by (simp add: split_js_def js_star_space)
  have 3: "botLines (js ''* First point* Second point'') = [js ''First point'', js ''Second point'']"
    by (simp add: botLines_def split_js_def js_def trim_def isWhiteSpace_def)
  have 4: "botLines reply = (if \<forall>c\<in>set reply. isWhiteSpace c then [] else [trim reply])"
    if "\<not> includes_js reply (js ''* '')"
  proof -
    from that have "split_js reply (js ''* '') = [reply]"
      by (simp add: split_js_def js_star_space splitFrom_no_sep)
    then show ?thesis
      by (simp add: botLines_def trim_empty_iff)
  qed
  from 1 2 3 4 show ?thesis by blast
qed

theorem botLines_transform_witness:
  "\<not> includes_js (js ''Plain answer. '') (js ''* '')
   \<and> botLines (js ''Plain answer. '') = [js ''Plain answer.'']"
proof -
  have h: "\<not> includes_js (js ''Plain answer. '') (js ''* '')"
    by (simp add: js_def)
  have w: "\<not> (\<forall>c\<in>set (js ''Plain answer. ''). isWhiteSpace c)"
    by (simp add: js_def isWhiteSpace_def)
  have t: "trim (js ''Plain answer. '') = js ''Plain answer.''"
    by (simp add: js_def trim_def isWhiteSpace_def)
  from botLines_transform [of "js ''Plain answer. ''"] h
  have "botLines (js ''Plain answer. '') =
          (if \<forall>c\<in>set (js ''Plain answer. ''). isWhiteSpace c then []
           else [trim (js ''Plain answer. '')])"
    by blast
  with w t h show ?thesis by simp
qed

text \<open>
  The reply that is a single space contains no delimiter and yields no line, so a reply
  without the delimiter does not always yield a single-element sequence.
\<close>

theorem botLines_single_element_counterexample:
  "\<not> includes_js (js '' '') (js ''* '') \<and> botLines (js '' '') = []"
  by (simp add: botLines_def split_js_def js_def trim_def isWhiteSpace_def)

text \<open>
  C7. A rename to a name that is empty or consists of white space only changes nothing:
  the state, with its session list and the stored list, is the one before. A rename to any
  other name sets the name of the session with the given id to the trimmed, non-empty name,
  leaves the other sessions as they are and stores the resulting list.
\<close>

theorem saveRename_blank_rejected:
  "((\<forall>c\<in>set newName. isWhiteSpace c) \<longrightarrow> saveRename i (s\<lparr>renameText := newName\<rparr>) = s\<lparr>renameText := newName\<rparr>)
   \<and> ((\<exists>c\<in>set newName. \<not> isWhiteSpace c) \<longrightarrow>
        trim newName \<noteq> []
        \<and> chatHistory (saveRename i (s\<lparr>renameText := newName\<rparr>)) =
            map (\<lambda>chat. if id_chat chat = i then chat\<lparr>name := trim newName\<rparr> else chat) (chatHistory s)
        \<and> allChats (saveRename i (s\<lparr>renameText := newName\<rparr>)) =
            Some (chatHistory (saveRename i (s\<lparr>renameText := newName\<rparr>))))"
  by (auto simp: saveRename_def Let_def trim_empty_iff)

theorem saveRename_blank_rejected_witness:
  "list_all isWhiteSpace (js ''   '')
   \<and> saveRename (id_chat chatB) (sampleApp\<lparr>renameText := js ''   ''\<rparr>) = sampleApp\<lparr>renameText := js ''   ''\<rparr>
   \<and> (\<exists>c\<in>set (js ''Trip''). \<not> isWhiteSpace c)
   \<and> map name (chatHistory (saveRename (id_chat chatB) (sampleApp\<lparr>renameText := js ''Trip''\<rparr>)))
       = [js ''New Chat'', js ''Trip'']
   \<and> allChats (saveRename (id_chat chatB) (sampleApp\<lparr>renameText := js ''Trip''\<rparr>)) =
       Some (chatHistory (saveRename (id_chat chatB) (sampleApp\<lparr>renameText := js ''Trip''\<rparr>)))"
proof -
  have a: "\<forall>c\<in>set (js ''   ''). isWhiteSpace c"
    by (simp add: js_def isWhiteSpace_def)
  have b: "\<exists>c\<in>set (js ''Trip''). \<not> isWhiteSpace c"
    by (simp add: js_def isWhiteSpace_def)
  have t: "trim (js ''Trip'') = js ''Trip''"
    by (simp add: js_def trim_def isWhiteSpace_def)
  have c: "chatHistory sampleApp = [chatA, chatB]"
    by (simp add: sampleApp_def mount_def saveEffect_def loadEffect_def initial_def storedChats_def
        Let_def chatA_def chatB_def js_def)
  have d: "id_chat chatA \<noteq> id_chat chatB" "name chatA = js ''New Chat''"
    by (simp_all add: chatA_def chatB_def js_def)
  from saveRename_blank_rejected [of "js ''   ''" "id_chat chatB" sampleApp] a
  have 1: "saveRename (id_chat chatB) (sampleApp\<lparr>renameText := js ''   ''\<rparr>) = sampleApp\<lparr>renameText := js ''   ''\<rparr>"
    by blast
  from saveRename_blank_rejected [of "js ''Trip''" "id_chat chatB" sampleApp] b
  have 2: "chatHistory (saveRename (id_chat chatB) (sampleApp\<lparr>renameText := js ''Trip''\<rparr>)) =
            map (\<lambda>chat. if id_chat chat = id_chat chatB then chat\<lparr>name := trim (js ''Trip'')\<rparr> else chat) (chatHistory sampleApp)"
    and 3: "allChats (saveRename (id_chat chatB) (sampleApp\<lparr>renameText := js ''Trip''\<rparr>)) =
       Some (chatHistory (saveRename (id_chat chatB) (sampleApp\<lparr>renameText := js ''Trip''\<rparr>)))"
    by blast+
  from 2 have "map name (chatHistory (saveRename (id_chat chatB) (sampleApp\<lparr>renameText := js ''Trip''\<rparr>)))
       = [js ''New Chat'', js ''Trip'']"
    by (simp add: c d t)
  with a b 1 3 show ?thesis by (simp add: list_all_iff)
qed

text \<open>
  C8 (amended). When a question is sent while the current session still has the name
  \<^verbatim>\<open>"New Chat"\<close> or the empty name, every session with the current id is renamed to the
  first six segments of the trimmed question between single spaces, joined by single spaces,
  and the other names stay. The segments contain no space and joined by single spaces they
  give the trimmed question back, so two adjacent spaces enclose an empty segment. When all
  white space in the trimmed question consists of single spaces with no two adjacent, the
  first six segments are the first six words of the question.
\<close>

theorem askQuestion_default_name:
  assumes cur: "find (\<lambda>chat. Some (id_chat chat) = currentSessionId s) (chatHistory s) = Some currentChat"
    and dflt: "name currentChat = [] \<or> name currentChat = js ''New Chat''"
    and q: "trim (question s) \<noteq> []"
  shows "map name (chatHistory (fire lc (AskQuestion now) s)) =
           map (\<lambda>chat. if Some (id_chat chat) = currentSessionId s
                      then join_js (take 6 (segmentsFrom [] (trim (question s)))) (js '' '')
                      else name chat) (chatHistory s)
     \<and> join_js (segmentsFrom [] (trim (question s))) (js '' '') = trim (question s)
     \<and> (\<forall>seg\<in>set (segmentsFrom [] (trim (question s))). 0x20 \<notin> set seg)
     \<and> ((\<forall>c\<in>set (trim (question s)). isWhiteSpace c \<longrightarrow> c = 0x20)
          \<and> \<not> includes_js (trim (question s)) (js ''  '') \<longrightarrow>
        take 6 (segmentsFrom [] (trim (question s))) = firstSixWords (question s))"
proof -
  have "map name (chatHistory (fire lc (AskQuestion now) s)) = map name (chatHistory (askQuestion now s))"
    using q by (simp add: names_saveEffect)
  also have "\<dots> = map (\<lambda>chat. if Some (id_chat chat) = currentSessionId s then shortName (question s)
                    else name chat) (chatHistory s)"
    using cur dflt q by (rule askQuestion_names)
  finally have 1: "map name (chatHistory (fire lc (AskQuestion now) s)) =
           map (\<lambda>chat. if Some (id_chat chat) = currentSessionId s
                      then join_js (take 6 (segmentsFrom [] (trim (question s)))) (js '' '')
                      else name chat) (chatHistory s)"
    by (simp only: shortName_segments)
  have 2: "join_js (segmentsFrom [] (trim (question s))) (js '' '') = trim (question s)"
    by (simp add: join_segmentsFrom)
  have 3: "\<forall>seg\<in>set (segmentsFrom [] (trim (question s))). 0x20 \<notin> set seg"
    using segmentsFrom_no_space [of "[]"] by auto
  have 4: "(\<forall>c\<in>set (trim (question s)). isWhiteSpace c \<longrightarrow> c = 0x20)
          \<and> \<not> includes_js (trim (question s)) (js ''  '') \<longrightarrow>
        take 6 (segmentsFrom [] (trim (question s))) = firstSixWords (question s)"
    using segments_firstSixWords [OF q] by blast
  show ?thesis by (intro conjI) (fact 1, fact 2, fact 3, fact 4)
qed

text \<open>
  The example of the specification: \<^verbatim>\<open>"Hello world foo bar baz qux extra"\<close> on a
  \<^verbatim>\<open>"New Chat"\<close> session gives the name \<^verbatim>\<open>"Hello world foo bar baz qux"\<close>; and
  \<^verbatim>\<open>"a  b c d e f g"\<close> gives \<^verbatim>\<open>"a  b c d e"\<close>.
\<close>

theorem askQuestion_default_name_witness:
  "find (\<lambda>chat. Some (id_chat chat) = currentSessionId helloApp) (chatHistory helloApp) = Some chatA
   \<and> name chatA = js ''New Chat''
   \<and> trim (question helloApp) \<noteq> []
   \<and> list_all (\<lambda>c. isWhiteSpace c \<longrightarrow> c = 0x20) (trim (question helloApp))
   \<and> \<not> includes_js (trim (question helloApp)) (js ''  '')
   \<and> firstSixWords (question helloApp) =
       [js ''Hello'', js ''world'', js ''foo'', js ''bar'', js ''baz'', js ''qux'']
   \<and> map name (chatHistory (fire codeUnitCompare (AskQuestion (js ''2026-01-01T00:00:00.000Z'')) helloApp))
       = [js ''Hello world foo bar baz qux'', js ''Plans'']
   \<and> find (\<lambda>chat. Some (id_chat chat) = currentSessionId spacedApp) (chatHistory spacedApp) = Some chatA
   \<and> trim (question spacedApp) \<noteq> []
   \<and> map name (chatHistory (fire codeUnitCompare (AskQuestion (js ''2026-01-01T00:00:00.000Z'')) spacedApp))
       = [js ''a  b c d e'', js ''Plans'']"
proof -
  have 1: "find (\<lambda>chat. Some (id_chat chat) = currentSessionId helloApp) (chatHistory helloApp) = Some chatA"
    by (simp add: helloApp_def sampleApp_eq chatA_def chatB_def js_def)
  have s1: "find (\<lambda>chat. Some (id_chat chat) = currentSessionId spacedApp) (chatHistory spacedApp) = Some chatA"
    by (simp add: spacedApp_def sampleApp_eq chatA_def chatB_def js_def)
  have 2: "name chatA = [] \<or> name chatA = js ''New Chat''"
    by (simp add: chatA_def)
  have 3: "trim (question helloApp) \<noteq> []"
    by (simp add: helloApp_def trim_def js_def isWhiteSpace_def)
  have s3: "trim (question spacedApp) \<noteq> []"
    by (simp add: spacedApp_def trim_def js_def isWhiteSpace_def)
  have 4: "\<not> includes_js (trim (question helloApp)) (js ''  '')"
    by (simp add: helloApp_def trim_def js_def isWhiteSpace_def)
  have w4: "\<forall>c\<in>set (trim (question helloApp)). isWhiteSpace c \<longrightarrow> c = 0x20"
    by (simp add: helloApp_def trim_def js_def isWhiteSpace_def)
  have 5: "firstSixWords (question helloApp) =
       [js ''Hello'', js ''world'', js ''foo'', js ''bar'', js ''baz'', js ''qux'']"
    by (simp add: helloApp_def firstSixWords_def trim_def js_def isWhiteSpace_def)
  have j: "join_js [js ''Hello'', js ''world'', js ''foo'', js ''bar'', js ''baz'', js ''qux''] (js '' '')
      = js ''Hello world foo bar baz qux''"
    by (simp add: js_def)
  have sj: "join_js (take 6 (segmentsFrom [] (trim (question spacedApp)))) (js '' '') = js ''a  b c d e''"
    by (simp add: spacedApp_def trim_def js_def isWhiteSpace_def)
  have 6: "chatHistory helloApp = [chatA, chatB]" "currentSessionId helloApp = Some (id_chat chatA)"
    "chatHistory spacedApp = [chatA, chatB]" "currentSessionId spacedApp = Some (id_chat chatA)"
    by (simp_all add: helloApp_def spacedApp_def sampleApp_eq)
  have 7: "id_chat chatB \<noteq> id_chat chatA" by (simp add: chatA_def chatB_def js_def)
  have 8: "name chatB = js ''Plans''" by (simp add: chatB_def)
  note th = askQuestion_default_name [OF 1 2 3, of codeUnitCompare "js ''2026-01-01T00:00:00.000Z''"]
  note th2 = askQuestion_default_name [OF s1 2 s3, of codeUnitCompare "js ''2026-01-01T00:00:00.000Z''"]
  from th 4 w4 have s: "take 6 (segmentsFrom [] (trim (question helloApp))) = firstSixWords (question helloApp)"
    by blast
  from th have "map name (chatHistory (fire codeUnitCompare (AskQuestion (js ''2026-01-01T00:00:00.000Z'')) helloApp))
       = map (\<lambda>chat. if Some (id_chat chat) = currentSessionId helloApp
                      then join_js (take 6 (segmentsFrom [] (trim (question helloApp)))) (js '' '')
                      else name chat) (chatHistory helloApp)"
    by blast
  moreover have "join_js (take 6 (segmentsFrom [] (trim (question helloApp)))) (js '' '')
      = js ''Hello world foo bar baz qux''"
    by (simp only: s 5 j)
  ultimately have a: "map name (chatHistory (fire codeUnitCompare (AskQuestion (js ''2026-01-01T00:00:00.000Z'')) helloApp))
       = [js ''Hello world foo bar baz qux'', js ''Plans'']"
    by (simp add: 6 7 8)
  from th2 have "map name (chatHistory (fire codeUnitCompare (AskQuestion (js ''2026-01-01T00:00:00.000Z'')) spacedApp))
       = map (\<lambda>chat. if Some (id_chat chat) = currentSessionId spacedApp
                      then join_js (take 6 (segmentsFrom [] (trim (question spacedApp)))) (js '' '')
                      else name chat) (chatHistory spacedApp)"
    by blast
  then have b: "map name (chatHistory (fire codeUnitCompare (AskQuestion (js ''2026-01-01T00:00:00.000Z'')) spacedApp))
       = [js ''a  b c d e'', js ''Plans'']"
    by (simp add: sj 6 7 8)
  have n: "name chatA = js ''New Chat''" by (simp add: chatA_def)
  from w4 have l: "list_all (\<lambda>c. isWhiteSpace c \<longrightarrow> c = 0x20) (trim (question helloApp))"
    by (simp add: list_all_iff)
  show ?thesis by (intro conjI) (fact 1, fact n, fact 3, fact l, fact 4, fact 5, fact a, fact s1, fact s3, fact b)
qed

text \<open>
  With two spaces behind the first word the name has five words, not the first six of the
  question: \<^verbatim>\<open>split(' ')\<close> counts the empty segment between the two spaces.
\<close>

theorem askQuestion_six_words_counterexample:
  "map name (chatHistory (fire codeUnitCompare (AskQuestion (js ''2026-01-01T00:00:00.000Z'')) spacedApp))
     = [js ''a  b c d e'', js ''Plans'']
   \<and> firstSixWords (question spacedApp) = [js ''a'', js ''b'', js ''c'', js ''d'', js ''e'', js ''f'']
   \<and> wordsFrom [] (js ''a  b c d e'') \<noteq> firstSixWords (question spacedApp)"
  by (simp add: spacedApp_def sampleApp_eq askQuestion_def saveEffect_def Let_def chatA_def chatB_def
      shortName_def split_js_def firstSixWords_def trim_def js_def isWhiteSpace_def)

text \<open>
  C9. An accepted rename stores the trimmed name: the new name of the session is the given
  name without the white space before and behind it, it neither starts nor ends with white
  space, and it differs from the given name whenever that starts or ends with white space.
\<close>

theorem saveRename_stores_trimmed:
  assumes "trim newName \<noteq> []"
  shows "chatHistory (saveRename i (s\<lparr>renameText := newName\<rparr>)) =
           map (\<lambda>chat. if id_chat chat = i then chat\<lparr>name := trim newName\<rparr> else chat) (chatHistory s)
         \<and> (\<exists>pre post. newName = pre @ trim newName @ post
               \<and> (\<forall>c\<in>set pre. isWhiteSpace c) \<and> (\<forall>c\<in>set post. isWhiteSpace c))
         \<and> \<not> isWhiteSpace (hd (trim newName)) \<and> \<not> isWhiteSpace (last (trim newName))
         \<and> (isWhiteSpace (hd newName) \<or> isWhiteSpace (last newName) \<longrightarrow> trim newName \<noteq> newName)"
proof -
  have 1: "chatHistory (saveRename i (s\<lparr>renameText := newName\<rparr>)) =
           map (\<lambda>chat. if id_chat chat = i then chat\<lparr>name := trim newName\<rparr> else chat) (chatHistory s)"
    using assms by (simp add: saveRename_def Let_def)
  have 2: "\<not> isWhiteSpace (hd (trim newName)) \<and> \<not> isWhiteSpace (last (trim newName))"
    using assms by (rule trim_ends)
  then have 3: "isWhiteSpace (hd newName) \<or> isWhiteSpace (last newName) \<longrightarrow> trim newName \<noteq> newName"
    by auto
  from 1 2 3 trim_decompose [of newName] show ?thesis by blast
qed

theorem saveRename_stores_trimmed_witness:
  "trim (js ''  Road trip '') \<noteq> []
   \<and> map name (chatHistory (saveRename (id_chat chatA) (sampleApp\<lparr>renameText := js ''  Road trip ''\<rparr>)))
       = [js ''Road trip'', js ''Plans'']"
proof -
  have t: "trim (js ''  Road trip '') = js ''Road trip''"
    by (simp add: js_def trim_def isWhiteSpace_def)
  then have ne: "trim (js ''  Road trip '') \<noteq> []"
    by (simp add: js_def)
  have c: "chatHistory sampleApp = [chatA, chatB]"
    by (simp add: sampleApp_def mount_def saveEffect_def loadEffect_def initial_def storedChats_def
        Let_def chatA_def chatB_def js_def)
  have d: "id_chat chatB \<noteq> id_chat chatA" "name chatB = js ''Plans''"
    by (simp_all add: chatA_def chatB_def js_def)
  from saveRename_stores_trimmed [OF ne, of "id_chat chatA" sampleApp]
  have "chatHistory (saveRename (id_chat chatA) (sampleApp\<lparr>renameText := js ''  Road trip ''\<rparr>)) =
           map (\<lambda>chat. if id_chat chat = id_chat chatA then chat\<lparr>name := trim (js ''  Road trip '')\<rparr> else chat) (chatHistory sampleApp)"
    by blast
  then have "map name (chatHistory (saveRename (id_chat chatA) (sampleApp\<lparr>renameText := js ''  Road trip ''\<rparr>)))
       = [js ''Road trip'', js ''Plans'']"
    by (simp add: c d t)
  with ne show ?thesis by blast
qed

text \<open>
  C10. Reading the reply from a response body never throws. When a component of
  \<^verbatim>\<open>candidates[0].content.parts[0].text\<close> is absent or \<^verbatim>\<open>null\<close>, and when the text
  at the path is falsy, the reply is \<^verbatim>\<open>"No response"\<close>; otherwise it is the text at the
  path.
\<close>

theorem rawReply_total:
  "(\<exists>v. rawReply data = Inr v)
   \<and> (nullish (valueAt data (take n replyKeys)) \<longrightarrow> rawReply data = Inr (JStr (js ''No response'')))
   \<and> (\<not> truthy (valueAt data replyKeys) \<longrightarrow> rawReply data = Inr (JStr (js ''No response'')))
   \<and> (valueAt data replyKeys = Some t \<and> truthy (Some t) \<longrightarrow> rawReply data = Inr t)"
proof -
  have 1: "\<exists>v. rawReply data = Inr v"
    by (simp add: rawReply_def replyPath_valueAt split: option.splits)
  have 2: "rawReply data = Inr (JStr (js ''No response''))" if "nullish (valueAt data (take n replyKeys))"
    using valueAt_prefix_nullish [OF that] by (rule rawReply_falsy)
  have 3: "valueAt data replyKeys = Some t \<and> truthy (Some t) \<longrightarrow> rawReply data = Inr t"
    by (simp add: rawReply_def replyPath_valueAt)
  from 1 2 3 rawReply_falsy show ?thesis by blast
qed

theorem rawReply_total_witness:
  "nullish (valueAt noCandidates (take 2 replyKeys))
   \<and> rawReply noCandidates = Inr (JStr (js ''No response''))
   \<and> \<not> truthy (valueAt emptyText replyKeys)
   \<and> rawReply emptyText = Inr (JStr (js ''No response''))
   \<and> valueAt helloText replyKeys = Some (JStr (js ''Hi'')) \<and> truthy (Some (JStr (js ''Hi'')))
   \<and> rawReply helloText = Inr (JStr (js ''Hi''))"
proof -
  have a: "nullish (valueAt noCandidates (take 2 replyKeys))"
    by (simp add: noCandidates_def valueAt_def replyKeys_def component_def nullish_def js_def)
  have b: "\<not> truthy (valueAt emptyText replyKeys)"
    by (simp add: emptyText_def valueAt_def replyKeys_def component_def js_def)
  have c: "valueAt helloText replyKeys = Some (JStr (js ''Hi''))"
    by (simp add: helloText_def valueAt_def replyKeys_def component_def js_def)
  have d: "truthy (Some (JStr (js ''Hi'')))"
    by (simp add: js_def)
  from rawReply_total [of noCandidates 2] a
  have 1: "rawReply noCandidates = Inr (JStr (js ''No response''))" by blast
  from rawReply_total [of emptyText 0] b
  have 2: "rawReply emptyText = Inr (JStr (js ''No response''))" by blast
  from rawReply_total [of helloText 0 "JStr (js ''Hi'')"] c d
  have 3: "rawReply helloText = Inr (JStr (js ''Hi''))" by blast
  from a b c d 1 2 3 show ?thesis by blast
qed

end
